theory Spec2Isabelle
  imports Complex_Main "HOL-Library.Log_Nat" "HOL-Library.Multiset"
begin

section \<open>Data model (src/unnamed/part\_000, src/index.tsx lines 4--33)\<close>

text \<open>
  The attendance tracker is TypeScript. A string is modelled as \<open>string\<close>: the UTF-8
  bytes of its text. Equality, concatenation, the stripping of non-digits and of
  white space, and the quoting and scanning of JSON are defined on these bytes so
  that they agree with the JavaScript operations on the text; a lone surrogate, which
  a JavaScript string can hold and UTF-8 cannot, is outside the model. The enum
  \<open>AttendanceStatus\<close> is a datatype, the interfaces are records.
  The fields \<open>id\<close> and \<open>notes\<close> of a record are written \<open>id_r\<close> and \<open>notes_r\<close>:
  \<open>id\<close> is the identity function of HOL and \<open>notes\<close> a keyword of Isabelle.
\<close>

datatype AttendanceStatus = Hadir | Ijin | Alpa

text \<open>
  A JavaScript \<open>number\<close> is an IEEE binary64 value: a finite value (a rational
  here), an infinity or NaN. The sign of zero is not modelled; nothing in the program
  can tell the two zeros apart.
\<close>

datatype number = Num rat | PosInfinity | NegInfinity | NaN

record OfficerAttendance =
  name :: string
  status :: AttendanceStatus

record AttendanceRecord =
  id_r :: string
  date :: string
  day :: string
  officers :: "OfficerAttendance list"
  notes_r :: string
  collection :: number

text \<open>\<open>Schedule\<close>: an object keyed by the weekday index (0 = Sunday .. 6 = Saturday).\<close>

type_synonym Schedule = "nat \<rightharpoonup> string list"

section \<open>Constants (src/unnamed/part\_001, src/index.tsx lines 35--48)\<close>

definition NAMA_HARI :: "nat \<rightharpoonup> string" where
  "NAMA_HARI = map_of
     [(0, ''Minggu''), (1, ''Senin''), (2, ''Selasa''), (3, ''Rabu''),
      (4, ''Kamis''), (5, ''Jumat''), (6, ''Sabtu'')]"

definition JADWAL_RONDA :: Schedule where
  "JADWAL_RONDA = map_of
     [(1, [''Bp Aris H01'', ''Bp Asep H03'', ''Bp Iyeng H04'', ''Bp Yayan'', ''Bp Erik'']),
      (2, [''Bp Ma'ruf'', ''Bp Sunara'', ''Bp Eka'']),
      (3, [''Bp Ujang Nur'', ''Bp Lili'', ''Bp Kosim'', ''Bp Asep Sarboah'']),
      (4, [''Bp Didin'', ''Bp Hamzah'', ''Bp Amrin'', ''Bp Aden'', ''Bp Nanda'']),
      (5, [''Bp Ujang Guru'', ''Bp Wawan'', ''Bp Riyan'', ''Bp Asep H62'', ''Bp Irwan'',
           ''Bp Carkaya'', ''Bp Andre'']),
      (6, [''Bp Imam Kurtubi'', ''Bp Ayo'', ''Bp Ajo'', ''Bp Rizki'']),
      (0, [''Bp Haji Udin'', ''Bp Imam H47'', ''Bp Ikhsan'', ''Bp Rastam''])]"

text \<open>The remote variant (src/index.tsx) calls the same roster \<open>DEFAULT_JADWAL_RONDA\<close>.\<close>

definition DEFAULT_JADWAL_RONDA :: Schedule where
  "DEFAULT_JADWAL_RONDA = JADWAL_RONDA"

section \<open>Numbers: conversion to binary64 and \<open>parseInt\<close>\<close>

text \<open>
  \<open>ilog2 x\<close> is the binary exponent of a positive rational: the \<open>e\<close> with
  \<open>2^e \<le> x < 2^(e+1)\<close>. It is computed from the bit lengths of numerator and
  denominator, which fix \<open>e\<close> up to one.
\<close>

definition ilog2 :: "rat \<Rightarrow> int" where
  "ilog2 x =
     (let (a, b) = quotient_of x;
          d = int (floorlog 2 (nat a)) - int (floorlog 2 (nat b))
      in if 2 powi d \<le> x then d else d - 1)"

definition roundTiesToEven :: "rat \<Rightarrow> int" where
  "roundTiesToEven x =
     (let f = \<lfloor>x\<rfloor>; r = x - of_int f
      in if r < 1 / 2 then f
         else if 1 / 2 < r then f + 1
         else if even f then f else f + 1)"

text \<open>
  \<open>toNumber\<close> is the rounding of a mathematical value to the Number type of
  ECMA-262 (binary64, round to nearest, ties to even): 53 significant bits, the
  quantum never below \<open>2^-1074\<close>, and every value of magnitude at least
  \<open>2^1024 - 2^970\<close> becomes an infinity.
\<close>

definition toNumber :: "rat \<Rightarrow> number" where
  "toNumber x =
     (if x = 0 then Num 0
      else if 2 ^ 1024 - 2 ^ 970 \<le> \<bar>x\<bar> then (if 0 < x then PosInfinity else NegInfinity)
      else let q = max (ilog2 \<bar>x\<bar>) (- 1022) - 52;
               m = roundTiesToEven (\<bar>x\<bar> / 2 powi q)
           in Num (sgn x * of_int m * 2 powi q))"

definition is_digit :: "char \<Rightarrow> bool" where
  "is_digit c = (c \<in> set ''0123456789'')"

definition digit_value :: "char \<Rightarrow> nat" where
  "digit_value c = of_char c - 48"

definition digits_value :: "string \<Rightarrow> nat" where
  "digits_value Z = foldl (\<lambda>acc c. 10 * acc + digit_value c) 0 Z"

text \<open>
  The white space that \<open>parseInt\<close> skips and \<open>trim\<close> strips: the WhiteSpace and
  LineTerminator characters of ECMA-262 in UTF-8 (TAB, LF, VT, FF, CR, SP, U+00A0,
  U+1680, U+2000 to U+200A, U+2028, U+2029, U+202F, U+205F, U+3000, U+FEFF).
  \<open>leading pats s\<close> is the length of the pattern that \<open>s\<close> starts with, 0 when it
  starts with none, and \<open>strip\<close> removes leading patterns as long as there is one.
\<close>

definition white_space :: "string list" where
  "white_space =
     [[CHR 0x09], [CHR 0x0A], [CHR 0x0B], [CHR 0x0C], [CHR 0x0D], [CHR 0x20],
      [CHR 0xC2, CHR 0xA0], [CHR 0xE1, CHR 0x9A, CHR 0x80],
      [CHR 0xE2, CHR 0x80, CHR 0x80], [CHR 0xE2, CHR 0x80, CHR 0x81], [CHR 0xE2, CHR 0x80, CHR 0x82],
      [CHR 0xE2, CHR 0x80, CHR 0x83], [CHR 0xE2, CHR 0x80, CHR 0x84], [CHR 0xE2, CHR 0x80, CHR 0x85],
      [CHR 0xE2, CHR 0x80, CHR 0x86], [CHR 0xE2, CHR 0x80, CHR 0x87], [CHR 0xE2, CHR 0x80, CHR 0x88],
      [CHR 0xE2, CHR 0x80, CHR 0x89], [CHR 0xE2, CHR 0x80, CHR 0x8A], [CHR 0xE2, CHR 0x80, CHR 0xA8],
      [CHR 0xE2, CHR 0x80, CHR 0xA9], [CHR 0xE2, CHR 0x80, CHR 0xAF], [CHR 0xE2, CHR 0x81, CHR 0x9F],
      [CHR 0xE3, CHR 0x80, CHR 0x80], [CHR 0xEF, CHR 0xBB, CHR 0xBF]]"

definition leading :: "string list \<Rightarrow> string \<Rightarrow> nat" where
  "leading pats s =
     (case filter (\<lambda>p. p \<noteq> [] \<and> take (length p) s = p) pats of [] \<Rightarrow> 0 | p # ps \<Rightarrow> length p)"

function strip :: "string list \<Rightarrow> string \<Rightarrow> string" where
  "strip pats s = (if leading pats s = 0 then s else strip pats (drop (leading pats s) s))"
  by pat_completeness auto
termination
proof (relation "measure (\<lambda>(pats, s). length s)")
  show "wf (measure (\<lambda>(pats, s). length s))" by simp
next
  fix pats :: "string list" and s :: string
  assume nz: "leading pats s \<noteq> 0"
  have "leading pats s \<le> length s"
  proof (cases "filter (\<lambda>p. p \<noteq> [] \<and> take (length p) s = p) pats")
    case Nil
    then show ?thesis by (simp add: leading_def)
  next
    case (Cons p ps)
    then have "p \<in> set (filter (\<lambda>p. p \<noteq> [] \<and> take (length p) s = p) pats)" by simp
    then have "take (length p) s = p" by simp
    then have "length (take (length p) s) = length p" by simp
    then have "length p \<le> length s" by simp
    then show ?thesis using Cons by (simp add: leading_def)
  qed
  with nz show "((pats, drop (leading pats s) s), (pats, s)) \<in> measure (\<lambda>(pats, s). length s)"
    by simp
qed

declare strip.simps [simp del]

text \<open>
  \<open>parseInt(s, 10)\<close> (ECMA-262, 19.2.5): skip leading white space, read an optional
  sign, take the longest prefix of decimal digits; NaN when that prefix is empty,
  otherwise the Number nearest to the signed value. (For more than 20 significant
  digits the standard lets an engine replace the digits after the 20th by zeros before
  it rounds; the model rounds the exact value, as the common engines do.)
\<close>

definition parseInt :: "string \<Rightarrow> number" where
  "parseInt s =
     (let S = strip white_space s;
          neg = (S \<noteq> [] \<and> hd S = CHR ''-'');
          S' = (if S \<noteq> [] \<and> (hd S = CHR ''-'' \<or> hd S = CHR ''+'') then tl S else S);
          Z = takeWhile is_digit S'
      in if Z = [] then NaN
         else toNumber ((if neg then - 1 else 1) * of_nat (digits_value Z)))"

text \<open>\<open>x || 0\<close> on a number: NaN and zero are falsy.\<close>

definition or_zero :: "number \<Rightarrow> number" where
  "or_zero x = (if x = NaN \<or> x = Num 0 then Num 0 else x)"

section \<open>Form Controller (src/components/AttendanceForm.tsx, src/index.tsx lines 214--279)\<close>

text \<open>
  The form is the same in both variants of the App, but for the roster: the component
  of src/components/AttendanceForm.tsx reads the constant \<open>JADWAL_RONDA\<close>, the one of
  src/index.tsx gets the roster as its prop \<open>schedule\<close>. The functions below take the
  roster as an argument.

  The component's \<open>useState\<close> cells: the fields \<open>notes\<close> and \<open>collection\<close> of the
  form carry the suffix \<open>_input\<close>, the record type above owns the plain names.
\<close>

record FormState =
  statuses :: "string \<rightharpoonup> AttendanceStatus"
  notes_input :: string
  collection_input :: string

text \<open>
  What a render reads from the clock: \<open>today.getDay()\<close>,
  \<open>today.toISOString().split('T')[0]\<close>, and at submission
  \<open>new Date().toISOString()\<close> for the id.
\<close>

record Clock =
  dayOfWeek :: nat
  todayDateString :: string
  nowISOString :: string

text \<open>\<open>schedule[dayOfWeek] || []\<close>; an array, even an empty one, is truthy.\<close>

definition officersOnDuty :: "Schedule \<Rightarrow> nat \<Rightarrow> string list" where
  "officersOnDuty schedule d = (case schedule d of None \<Rightarrow> [] | Some l \<Rightarrow> l)"

definition initialStatuses :: "string list \<Rightarrow> (string \<rightharpoonup> AttendanceStatus)" where
  "initialStatuses onDuty = foldl (\<lambda>acc n. acc(n \<mapsto> Hadir)) Map.empty onDuty"

definition initialForm :: "string list \<Rightarrow> FormState" where
  "initialForm onDuty =
     \<lparr>statuses = initialStatuses onDuty, notes_input = [], collection_input = []\<rparr>"

definition isAlreadySubmitted :: "AttendanceRecord list \<Rightarrow> string \<Rightarrow> bool" where
  "isAlreadySubmitted existingRecords today =
     list_ex (\<lambda>record. date record = today) existingRecords"

definition handleStatusChange :: "string \<Rightarrow> AttendanceStatus \<Rightarrow> FormState \<Rightarrow> FormState" where
  "handleStatusChange n s form = form\<lparr>statuses := (statuses form)(n \<mapsto> s)\<rparr>"

text \<open>\<open>e.target.value.replace(/[^0-9]/g, '')\<close>, stored in the \<open>collection\<close> cell.\<close>

definition handleCollectionChange :: "string \<Rightarrow> FormState \<Rightarrow> FormState" where
  "handleCollectionChange v form = form\<lparr>collection_input := filter is_digit v\<rparr>"

text \<open>A template literal prints an undefined table entry as the text \<open>undefined\<close>.\<close>

definition template :: "string option \<Rightarrow> string" where
  "template x = (case x of None \<Rightarrow> ''undefined'' | Some s \<Rightarrow> s)"

definition day_label :: "nat \<Rightarrow> string" where
  "day_label d = template (NAMA_HARI d) @ '' malam '' @ template (NAMA_HARI ((d + 1) mod 7))"

definition officerData :: "string list \<Rightarrow> (string \<rightharpoonup> AttendanceStatus) \<Rightarrow> OfficerAttendance list" where
  "officerData onDuty st =
     map (\<lambda>n. \<lparr>name = n, status = (case st n of None \<Rightarrow> Alpa | Some s \<Rightarrow> s)\<rparr>) onDuty"

definition newRecord :: "Schedule \<Rightarrow> Clock \<Rightarrow> FormState \<Rightarrow> AttendanceRecord" where
  "newRecord schedule clock form =
     \<lparr>id_r = nowISOString clock,
      date = todayDateString clock,
      day = day_label (dayOfWeek clock),
      officers = officerData (officersOnDuty schedule (dayOfWeek clock)) (statuses form),
      notes_r = notes_input form,
      collection = or_zero (parseInt (collection_input form))\<rparr>"

text \<open>
  \<open>handleSubmit\<close>: when today's date is already in the collection it alerts and
  returns (no record, form untouched); otherwise it hands the new record to the
  \<open>addRecord\<close> callback of its props and resets the form. The result is the record
  passed to \<open>addRecord\<close>, if any, and the form state afterwards.
\<close>

definition handleSubmit ::
  "Schedule \<Rightarrow> Clock \<Rightarrow> AttendanceRecord list \<Rightarrow> FormState \<Rightarrow> AttendanceRecord option \<times> FormState" where
  "handleSubmit schedule clock existingRecords form =
     (if isAlreadySubmitted existingRecords (todayDateString clock) then (None, form)
      else (Some (newRecord schedule clock form),
            initialForm (officersOnDuty schedule (dayOfWeek clock))))"

text \<open>The local App: \<open>addRecord\<close> is \<open>setRecords(prev => [...prev, newRecord])\<close>.\<close>

definition addRecord :: "AttendanceRecord \<Rightarrow> AttendanceRecord list \<Rightarrow> AttendanceRecord list" where
  "addRecord r records = records @ [r]"

text \<open>One press of the submit button in the local App: the form and the collection after it.\<close>

definition submit ::
  "Schedule \<Rightarrow> Clock \<Rightarrow> FormState \<times> AttendanceRecord list \<Rightarrow> FormState \<times> AttendanceRecord list" where
  "submit schedule clock s =
     (case handleSubmit schedule clock (snd s) (fst s) of
        (None, form') \<Rightarrow> (form', snd s)
      | (Some r, form') \<Rightarrow> (form', addRecord r (snd s)))"

section \<open>Recap View (src/unnamed/part\_002)\<close>

subsection \<open>Filtering and ordering\<close>

text \<open>
  \<open>new Date(s).getTime()\<close> is the platform's: the time value of the date in
  milliseconds, or NaN (here \<open>None\<close>) when the string is not a date. The functions
  below take it as the parameter \<open>getTime\<close>. The comparator of the source is
  \<open>(a, b) => new Date(b.date).getTime() - new Date(a.date).getTime()\<close>; a difference
  with NaN is NaN.
\<close>

definition compareDates ::
  "(string \<Rightarrow> int option) \<Rightarrow> AttendanceRecord \<Rightarrow> AttendanceRecord \<Rightarrow> int option" where
  "compareDates getTime a b =
     (case getTime (date b) of
        None \<Rightarrow> None
      | Some tb \<Rightarrow> (case getTime (date a) of None \<Rightarrow> None | Some ta \<Rightarrow> Some (tb - ta)))"

text \<open>\<open>SortCompare\<close> of ECMA-262 (23.1.3.30.2): a comparator result of NaN counts as 0.\<close>

definition SortCompare :: "('a \<Rightarrow> 'a \<Rightarrow> int option) \<Rightarrow> 'a \<Rightarrow> 'a \<Rightarrow> int" where
  "SortCompare comparefn x y = (case comparefn x y of None \<Rightarrow> 0 | Some v \<Rightarrow> v)"

text \<open>
  \<open>Array.prototype.sort\<close> is the engine's, and which algorithm it runs is left to the
  engine. What ECMA-262 requires of it (23.1.3.30.1, \<open>SortIndexedProperties\<close>) is
  written out here. The result is always a rearrangement of the array. When
  \<open>SortCompare\<close> is a consistent comparator for the elements (comparing equal is
  reflexive, symmetric and transitive; comparing less and comparing greater are
  transitive), the result is in the comparator's order, and the sort is stable:
  elements that compare equal keep their order. When the comparator is not
  consistent, the order is implementation-defined; the comparator of the Recap View
  is not when a date that does not parse stands beside two different dates that do,
  since the comparisons with it are NaN, read as 0.
\<close>

definition consistent :: "('a \<Rightarrow> 'a \<Rightarrow> int) \<Rightarrow> 'a set \<Rightarrow> bool" where
  "consistent c S \<longleftrightarrow>
     (\<forall>a\<in>S. c a a = 0)
   \<and> (\<forall>a\<in>S. \<forall>b\<in>S. c a b = 0 \<longrightarrow> c b a = 0)
   \<and> (\<forall>a\<in>S. \<forall>b\<in>S. \<forall>d\<in>S. c a b = 0 \<and> c b d = 0 \<longrightarrow> c a d = 0)
   \<and> (\<forall>a\<in>S. \<forall>b\<in>S. \<forall>d\<in>S. c a b < 0 \<and> c b d < 0 \<longrightarrow> c a d < 0)
   \<and> (\<forall>a\<in>S. \<forall>b\<in>S. \<forall>d\<in>S. c a b > 0 \<and> c b d > 0 \<longrightarrow> c a d > 0)"

definition conforming :: "(('a \<Rightarrow> 'a \<Rightarrow> int option) \<Rightarrow> 'a list \<Rightarrow> 'a list) \<Rightarrow> bool" where
  "conforming sortfn \<longleftrightarrow>
     (\<forall>comparefn xs.
        mset (sortfn comparefn xs) = mset xs
      \<and> (consistent (SortCompare comparefn) (set xs) \<longrightarrow>
           sorted_wrt (\<lambda>a b. SortCompare comparefn a b \<le> 0) (sortfn comparefn xs)
         \<and> (\<forall>a\<in>set xs. filter (\<lambda>b. SortCompare comparefn a b = 0) (sortfn comparefn xs)
                        = filter (\<lambda>b. SortCompare comparefn a b = 0) xs)))"

text \<open>
  One conforming sortfn, for the examples: the stable insertion sort, in which an
  element goes in front of the first later element it does not compare greater than.
  For a consistent comparator every conforming engine returns the list it returns;
  for any other comparator engines differ from it and from each other.
\<close>

fun insert_sorted :: "('a \<Rightarrow> 'a \<Rightarrow> int option) \<Rightarrow> 'a \<Rightarrow> 'a list \<Rightarrow> 'a list" where
  "insert_sorted comparefn x [] = [x]"
| "insert_sorted comparefn x (y # ys) =
     (if SortCompare comparefn x y \<le> 0 then x # y # ys
      else y # insert_sorted comparefn x ys)"

fun array_sort :: "('a \<Rightarrow> 'a \<Rightarrow> int option) \<Rightarrow> 'a list \<Rightarrow> 'a list" where
  "array_sort comparefn [] = []"
| "array_sort comparefn (x # xs) = insert_sorted comparefn x (array_sort comparefn xs)"

text \<open>
  \<open>filteredRecords\<close>: \<open>!filterDate\<close> holds for the empty string only. The parameter
  \<open>sortfn\<close> is the engine's \<open>Array.prototype.sort\<close>; it sorts a copy (\<open>[...records]\<close>, or
  the array \<open>filter\<close> has made), so the collection itself is not reordered.
\<close>

definition filteredRecords ::
  "((AttendanceRecord \<Rightarrow> AttendanceRecord \<Rightarrow> int option) \<Rightarrow> AttendanceRecord list \<Rightarrow> AttendanceRecord list)
   \<Rightarrow> (string \<Rightarrow> int option) \<Rightarrow> AttendanceRecord list \<Rightarrow> string \<Rightarrow> AttendanceRecord list" where
  "filteredRecords sortfn getTime records filterDate =
     (if filterDate = [] then sortfn (compareDates getTime) records
      else sortfn (compareDates getTime) (filter (\<lambda>record. date record = filterDate) records))"

subsection \<open>JSON values\<close>

text \<open>
  What \<open>JSON.parse\<close> returns. After an import the collection holds whatever values
  the file's array held (\<open>setRecords(parsedData)\<close>, unchecked), so on this side of the
  program the collection is a list of JSON values. An object is the list of its
  properties in order.
\<close>

datatype json =
    JNull
  | JBool bool
  | JNumber number
  | JString string
  | JArray "json list"
  | JObject "(string \<times> json) list"

subsection \<open>\<open>JSON.stringify\<close>\<close>

text \<open>
  Decimal and hexadecimal digits (\<open>digit_char\<close> is applied below 10 only, \<open>hex_char\<close>
  below 16); \<open>show_nat\<close> is the decimal numeral of a natural number.
\<close>

definition digit_char :: "nat \<Rightarrow> char" where
  "digit_char d = ''0123456789'' ! d"

fun show_nat :: "nat \<Rightarrow> string" where
  "show_nat n = (if n < 10 then [digit_char n] else show_nat (n div 10) @ [digit_char (n mod 10)])"

declare show_nat.simps [simp del]

definition hex_char :: "nat \<Rightarrow> char" where
  "hex_char d = ''0123456789abcdef'' ! d"

text \<open>
  \<open>Number::toString\<close> of a finite value (ECMA-262, 6.1.6.1.20). An integer of magnitude
  up to \<open>2^53\<close> prints as its decimal numeral. For every other value the shortest
  digits that read back as the same Number are printed, with an exponent where the
  standard asks for one; that computation is the engine's and enters as the
  parameter \<open>dtoa\<close>.
\<close>

definition Number_toString :: "(rat \<Rightarrow> string) \<Rightarrow> rat \<Rightarrow> string" where
  "Number_toString dtoa q =
     (if q = of_int \<lfloor>q\<rfloor> \<and> \<bar>q\<bar> \<le> 2 ^ 53
      then (if q < 0 then ''-'' else []) @ show_nat (nat \<bar>\<lfloor>q\<rfloor>\<bar>)
      else dtoa q)"

text \<open>
  \<open>QuoteJSONString\<close> (ECMA-262, 25.5.2.3): the two-character escapes, \<open>\u00XX\<close> in
  lower-case hexadecimal for the other control characters, every other character as
  it is. (A lone surrogate, which the standard also escapes, has no UTF-8 form and
  does not occur in this model's strings.)
\<close>

definition quote_char :: "char \<Rightarrow> string" where
  "quote_char c =
     (if c = CHR 0x08 then [CHR 0x5C, CHR ''b'']
      else if c = CHR 0x09 then [CHR 0x5C, CHR ''t'']
      else if c = CHR 0x0A then [CHR 0x5C, CHR ''n'']
      else if c = CHR 0x0C then [CHR 0x5C, CHR ''f'']
      else if c = CHR 0x0D then [CHR 0x5C, CHR ''r'']
      else if c = CHR 0x22 then [CHR 0x5C, CHR 0x22]
      else if c = CHR 0x5C then [CHR 0x5C, CHR 0x5C]
      else if (of_char c :: nat) < 32
        then [CHR 0x5C, CHR ''u'', CHR ''0'', CHR ''0'', hex_char (of_char c div 16), hex_char (of_char c mod 16)]
      else [c])"

definition QuoteJSONString :: "string \<Rightarrow> string" where
  "QuoteJSONString s = [CHR 0x22] @ concat (map quote_char s) @ [CHR 0x22]"

text \<open>
  \<open>JSON.stringify(value, null, 2)\<close>: \<open>SerializeJSONProperty\<close> with a gap of two
  spaces. \<open>ind\<close> is the indentation already in force; an empty array or object has
  no line break inside; a number that is not finite prints as \<open>null\<close>.
\<close>

definition nl :: string where
  "nl = [CHR 0x0A]"

fun serialize :: "(rat \<Rightarrow> string) \<Rightarrow> string \<Rightarrow> json \<Rightarrow> string"
  and serialize_elements :: "(rat \<Rightarrow> string) \<Rightarrow> string \<Rightarrow> json list \<Rightarrow> string"
  and serialize_members :: "(rat \<Rightarrow> string) \<Rightarrow> string \<Rightarrow> (string \<times> json) list \<Rightarrow> string"
where
  "serialize dtoa ind JNull = ''null''"
| "serialize dtoa ind (JBool b) = (if b then ''true'' else ''false'')"
| "serialize dtoa ind (JNumber n) = (case n of Num q \<Rightarrow> Number_toString dtoa q | _ \<Rightarrow> ''null'')"
| "serialize dtoa ind (JString s) = QuoteJSONString s"
| "serialize dtoa ind (JArray xs) =
     (if xs = [] then ''[]''
      else ''['' @ serialize_elements dtoa (ind @ ''  '') xs @ nl @ ind @ '']'')"
| "serialize dtoa ind (JObject ps) =
     (if ps = [] then ''{}''
      else ''{'' @ serialize_members dtoa (ind @ ''  '') ps @ nl @ ind @ ''}'')"
| "serialize_elements dtoa ind [] = []"
| "serialize_elements dtoa ind (x # xs) =
     nl @ ind @ serialize dtoa ind x @ (if xs = [] then [] else '','') @ serialize_elements dtoa ind xs"
| "serialize_members dtoa ind [] = []"
| "serialize_members dtoa ind (p # ps) =
     nl @ ind @ QuoteJSONString (fst p) @ '': '' @ serialize dtoa ind (snd p)
       @ (if ps = [] then [] else '','') @ serialize_members dtoa ind ps"

definition JSON_stringify :: "(rat \<Rightarrow> string) \<Rightarrow> json \<Rightarrow> string" where
  "JSON_stringify dtoa v = serialize dtoa [] v"

subsection \<open>\<open>JSON.parse\<close>\<close>

text \<open>
  The parser of ECMA-404 in two passes over the text: a scanner that turns characters
  into tokens, one character at a time, and a stack machine over the tokens. Both are
  total: any error is \<open>None\<close>, the SyntaxError of \<open>JSON.parse\<close>.
\<close>

datatype token =
  TLBrace | TRBrace | TLBracket | TRBracket | TColon | TComma
  | TString string | TNumber number | TTrue | TFalse | TNull

text \<open>
  A string under construction holds the raw bytes read and the code units of
  \<open>\uXXXX\<close> escapes; \<open>assemble\<close> writes the units out in UTF-8, a surrogate pair as
  the one code point it stands for.
\<close>

datatype piece = Raw char | Unit nat

definition utf8_encode :: "nat \<Rightarrow> string" where
  "utf8_encode cp =
     (if cp < 0x80 then [char_of cp]
      else if cp < 0x800 then [char_of (0xC0 + cp div 0x40), char_of (0x80 + cp mod 0x40)]
      else if cp < 0x10000 then
        [char_of (0xE0 + cp div 0x1000), char_of (0x80 + cp div 0x40 mod 0x40),
         char_of (0x80 + cp mod 0x40)]
      else
        [char_of (0xF0 + cp div 0x40000), char_of (0x80 + cp div 0x1000 mod 0x40),
         char_of (0x80 + cp div 0x40 mod 0x40), char_of (0x80 + cp mod 0x40)])"

fun assemble :: "piece list \<Rightarrow> string" where
  "assemble [] = []"
| "assemble (Raw c # ps) = c # assemble ps"
| "assemble (Unit hi # Unit lo # ps) =
     (if 0xD800 \<le> hi \<and> hi < 0xDC00 \<and> 0xDC00 \<le> lo \<and> lo < 0xE000
      then utf8_encode (0x10000 + (hi - 0xD800) * 0x400 + (lo - 0xDC00)) @ assemble ps
      else utf8_encode hi @ assemble (Unit lo # ps))"
| "assemble (Unit u # ps) = utf8_encode u @ assemble ps"

definition hex_value :: "char \<Rightarrow> nat option" where
  "hex_value c =
     (let k = (of_char c :: nat)
      in if 48 \<le> k \<and> k \<le> 57 then Some (k - 48)
         else if 97 \<le> k \<and> k \<le> 102 then Some (k - 87)
         else if 65 \<le> k \<and> k \<le> 70 then Some (k - 55)
         else None)"

text \<open>
  A number token is the longest run of the characters a number can hold; the run must
  then be a number of the JSON grammar: an optional minus, an integer part without a
  leading zero, an optional fraction, an optional exponent. Its value is the Number
  nearest to the decimal value read (rounded from the exact value, as for \<open>parseInt\<close>).
\<close>

definition numchar :: "char \<Rightarrow> bool" where
  "numchar c = (is_digit c \<or> c \<in> set ''+-.eE'')"

definition number_of_lexeme :: "string \<Rightarrow> number option" where
  "number_of_lexeme lx =
     (let neg = (lx \<noteq> [] \<and> hd lx = CHR ''-'');
          r0 = (if neg then tl lx else lx);
          ip = takeWhile is_digit r0;
          r1 = dropWhile is_digit r0;
          has_frac = (r1 \<noteq> [] \<and> hd r1 = CHR ''.'');
          fp = (if has_frac then takeWhile is_digit (tl r1) else []);
          r2 = (if has_frac then dropWhile is_digit (tl r1) else r1);
          has_exp = (r2 \<noteq> [] \<and> (hd r2 = CHR ''e'' \<or> hd r2 = CHR ''E''));
          r3 = (if has_exp then tl r2 else r2);
          eneg = (has_exp \<and> r3 \<noteq> [] \<and> hd r3 = CHR ''-'');
          r4 = (if has_exp \<and> r3 \<noteq> [] \<and> (hd r3 = CHR ''-'' \<or> hd r3 = CHR ''+'') then tl r3 else r3);
          ep = (if has_exp then takeWhile is_digit r4 else []);
          r5 = (if has_exp then dropWhile is_digit r4 else r4)
      in if ip = [] \<or> (1 < length ip \<and> hd ip = CHR ''0'') \<or> (has_frac \<and> fp = [])
            \<or> (has_exp \<and> ep = []) \<or> r5 \<noteq> []
         then None
         else Some (toNumber ((if neg then - 1 else 1) * of_nat (digits_value (ip @ fp))
                * 10 powi ((if eneg then - 1 else 1) * int (digits_value ep) - int (length fp)))))"

text \<open>The scanner's states, and its step on one character.\<close>

datatype mode =
  Between
  | InString "piece list"
  | Escape "piece list"
  | Hex "piece list" "nat list"
  | InNumber string
  | InWord token string

definition begin_token :: "char \<Rightarrow> token list \<Rightarrow> (mode \<times> token list) option" where
  "begin_token c acc =
     (if c \<in> {CHR 0x20, CHR 0x09, CHR 0x0A, CHR 0x0D} then Some (Between, acc)
      else if c = CHR ''{'' then Some (Between, TLBrace # acc)
      else if c = CHR ''}'' then Some (Between, TRBrace # acc)
      else if c = CHR ''['' then Some (Between, TLBracket # acc)
      else if c = CHR '']'' then Some (Between, TRBracket # acc)
      else if c = CHR '':'' then Some (Between, TColon # acc)
      else if c = CHR '','' then Some (Between, TComma # acc)
      else if c = CHR 0x22 then Some (InString [], acc)
      else if c = CHR ''-'' \<or> is_digit c then Some (InNumber [c], acc)
      else if c = CHR ''t'' then Some (InWord TTrue ''rue'', acc)
      else if c = CHR ''f'' then Some (InWord TFalse ''alse'', acc)
      else if c = CHR ''n'' then Some (InWord TNull ''ull'', acc)
      else None)"

definition unescape :: "char \<Rightarrow> char option" where
  "unescape c =
     (if c = CHR 0x22 \<or> c = CHR 0x5C \<or> c = CHR ''/'' then Some c
      else if c = CHR ''b'' then Some (CHR 0x08)
      else if c = CHR ''f'' then Some (CHR 0x0C)
      else if c = CHR ''n'' then Some (CHR 0x0A)
      else if c = CHR ''r'' then Some (CHR 0x0D)
      else if c = CHR ''t'' then Some (CHR 0x09)
      else None)"

fun lex_step :: "mode \<Rightarrow> token list \<Rightarrow> char \<Rightarrow> (mode \<times> token list) option" where
  "lex_step Between acc c = begin_token c acc"
| "lex_step (InString ps) acc c =
     (if c = CHR 0x22 then Some (Between, TString (assemble (rev ps)) # acc)
      else if c = CHR 0x5C then Some (Escape ps, acc)
      else if (of_char c :: nat) < 32 then None
      else Some (InString (Raw c # ps), acc))"
| "lex_step (Escape ps) acc c =
     (if c = CHR ''u'' then Some (Hex ps [], acc)
      else (case unescape c of None \<Rightarrow> None | Some d \<Rightarrow> Some (InString (Raw d # ps), acc)))"
| "lex_step (Hex ps hs) acc c =
     (case hex_value c of
        None \<Rightarrow> None
      | Some h \<Rightarrow>
          if length hs = 3
          then Some (InString (Unit (foldl (\<lambda>a d. 16 * a + d) 0 (hs @ [h])) # ps), acc)
          else Some (Hex ps (hs @ [h]), acc))"
| "lex_step (InNumber lx) acc c =
     (if numchar c then Some (InNumber (lx @ [c]), acc)
      else (case number_of_lexeme lx of
              None \<Rightarrow> None
            | Some n \<Rightarrow> begin_token c (TNumber n # acc)))"
| "lex_step (InWord tok rest) acc c =
     (case rest of
        [] \<Rightarrow> None
      | r # rs \<Rightarrow>
          if c \<noteq> r then None
          else if rs = [] then Some (Between, tok # acc)
          else Some (InWord tok rs, acc))"

definition lex_finish :: "mode \<Rightarrow> token list \<Rightarrow> token list option" where
  "lex_finish m acc =
     (case m of
        Between \<Rightarrow> Some (rev acc)
      | InNumber lx \<Rightarrow> map_option (\<lambda>n. rev (TNumber n # acc)) (number_of_lexeme lx)
      | _ \<Rightarrow> None)"

fun lex_run :: "mode \<Rightarrow> token list \<Rightarrow> string \<Rightarrow> token list option" where
  "lex_run m acc [] = lex_finish m acc"
| "lex_run m acc (c # cs) =
     (case lex_step m acc c of None \<Rightarrow> None | Some (m', acc') \<Rightarrow> lex_run m' acc' cs)"

text \<open>
  The properties of the object a \<open>{...}\<close> builds, in the order JavaScript keeps them:
  a repeated key keeps its first place and takes the last value; keys that are array
  indices come first, in ascending order, then the others in order of appearance.
\<close>

definition is_array_index :: "string \<Rightarrow> bool" where
  "is_array_index k =
     (k \<noteq> [] \<and> list_all is_digit k \<and> (k = ''0'' \<or> hd k \<noteq> CHR ''0'')
      \<and> digits_value k < 2 ^ 32 - 1)"

definition set_property :: "(string \<times> json) list \<Rightarrow> string \<times> json \<Rightarrow> (string \<times> json) list" where
  "set_property ps p =
     (if fst p \<in> fst ` set ps then map (\<lambda>q. if fst q = fst p then p else q) ps else ps @ [p])"

definition make_object :: "(string \<times> json) list \<Rightarrow> (string \<times> json) list" where
  "make_object ps =
     (let own = foldl set_property [] ps
      in sort_key (\<lambda>p. digits_value (fst p)) (filter (\<lambda>p. is_array_index (fst p)) own)
         @ filter (\<lambda>p. \<not> is_array_index (fst p)) own)"

text \<open>
  The stack machine: a frame for each open array or object, and what may come next.
\<close>

datatype frame = FArray "json list" | FObject "(string \<times> json) list" "string option"

datatype expect = EValue | EValueOrClose | ECommaOrClose | EKey | EKeyOrClose | EColon

datatype config = Config expect "frame list" | Done json

fun push_value :: "json \<Rightarrow> frame list \<Rightarrow> config option" where
  "push_value v [] = Some (Done v)"
| "push_value v (FArray xs # fs) = Some (Config ECommaOrClose (FArray (v # xs) # fs))"
| "push_value v (FObject ps (Some k) # fs) = Some (Config ECommaOrClose (FObject ((k, v) # ps) None # fs))"
| "push_value v (FObject ps None # fs) = None"

fun value_token :: "token \<Rightarrow> json option" where
  "value_token (TString s) = Some (JString s)"
| "value_token (TNumber n) = Some (JNumber n)"
| "value_token TTrue = Some (JBool True)"
| "value_token TFalse = Some (JBool False)"
| "value_token TNull = Some JNull"
| "value_token t = None"

fun parse_step :: "config \<Rightarrow> token \<Rightarrow> config option" where
  "parse_step (Done v) t = None"
| "parse_step (Config e fs) t =
     (if e = EValue \<or> e = EValueOrClose then
        (if t = TLBracket then Some (Config EValueOrClose (FArray [] # fs))
         else if t = TLBrace then Some (Config EKeyOrClose (FObject [] None # fs))
         else if t = TRBracket \<and> e = EValueOrClose then push_value (JArray []) (tl fs)
         else (case value_token t of None \<Rightarrow> None | Some v \<Rightarrow> push_value v fs))
      else if e = ECommaOrClose then
        (case fs of
           FArray xs # fs' \<Rightarrow>
             if t = TComma then Some (Config EValue fs)
             else if t = TRBracket then push_value (JArray (rev xs)) fs'
             else None
         | FObject ps k # fs' \<Rightarrow>
             if t = TComma then Some (Config EKey fs)
             else if t = TRBrace then push_value (JObject (make_object (rev ps))) fs'
             else None
         | [] \<Rightarrow> None)
      else if e = EKey \<or> e = EKeyOrClose then
        (case fs of
           FObject ps k # fs' \<Rightarrow>
             (case t of
                TString s \<Rightarrow> Some (Config EColon (FObject ps (Some s) # fs'))
              | TRBrace \<Rightarrow> if e = EKeyOrClose then push_value (JObject []) fs' else None
              | _ \<Rightarrow> None)
         | _ \<Rightarrow> None)
      else (if t = TColon then Some (Config EValue fs) else None))"

fun parse_run :: "config \<Rightarrow> token list \<Rightarrow> json option" where
  "parse_run c [] = (case c of Done v \<Rightarrow> Some v | _ \<Rightarrow> None)"
| "parse_run c (t # ts) = (case parse_step c t of None \<Rightarrow> None | Some c' \<Rightarrow> parse_run c' ts)"

definition JSON_parse :: "string \<Rightarrow> json option" where
  "JSON_parse text =
     (case lex_run Between [] text of
        None \<Rightarrow> None
      | Some toks \<Rightarrow> parse_run (Config EValue []) toks)"

subsection \<open>Import and export\<close>

text \<open>
  \<open>handleUpload\<close>, for the file picked (\<open>None\<close>: no file, nothing happens). \<open>parse\<close>
  stands for \<open>JSON.parse\<close>, with \<open>None\<close> for the SyntaxError it throws. The result is
  the alert shown, if any, and the collection afterwards.
\<close>

definition handleUpload ::
  "(string \<Rightarrow> json option) \<Rightarrow> string option \<Rightarrow> json list \<Rightarrow> string option \<times> json list" where
  "handleUpload parse file records =
     (case file of
        None \<Rightarrow> (None, records)
      | Some text \<Rightarrow>
          (case parse text of
             None \<Rightarrow> (Some ''Gagal membaca file JSON. Pastikan formatnya benar.'', records)
           | Some (JArray parsedData) \<Rightarrow> (Some ''Data berhasil diimpor!'', parsedData)
           | Some _ \<Rightarrow> (Some ''Format file JSON tidak valid.'', records)))"

text \<open>
  The JSON value of a record: what \<open>JSON.stringify\<close> sees, the properties in the order
  \<open>handleSubmit\<close> writes them; a status is its string.
\<close>

definition json_of_status :: "AttendanceStatus \<Rightarrow> json" where
  "json_of_status s = JString (case s of Hadir \<Rightarrow> ''Hadir'' | Ijin \<Rightarrow> ''Ijin'' | Alpa \<Rightarrow> ''Alpa'')"

definition json_of_officer :: "OfficerAttendance \<Rightarrow> json" where
  "json_of_officer a = JObject [(''name'', JString (name a)), (''status'', json_of_status (status a))]"

definition json_of_record :: "AttendanceRecord \<Rightarrow> json" where
  "json_of_record r =
     JObject
       [(''id'', JString (id_r r)),
        (''date'', JString (date r)),
        (''day'', JString (day r)),
        (''officers'', JArray (map json_of_officer (officers r))),
        (''notes'', JString (notes_r r)),
        (''collection'', JNumber (collection r))]"

text \<open>\<open>handleSetRecords\<close> of the App: the collection is replaced by the list given.\<close>

definition handleSetRecords :: "json list \<Rightarrow> json list \<Rightarrow> json list" where
  "handleSetRecords newRecords records = newRecords"

text \<open>
  \<open>handleDownload\<close>: the text of the file \<open>data_ronda.json\<close>. The source passes
  \<open>JSON.stringify(records, null, 2)\<close> through \<open>encodeURIComponent\<close> into a data URI,
  which the browser decodes again when it writes the file.
\<close>

definition handleDownload :: "(rat \<Rightarrow> string) \<Rightarrow> json list \<Rightarrow> string" where
  "handleDownload dtoa records = JSON_stringify dtoa (JArray records)"

text \<open>
  A well-formed record, as the data model has it: the strings are any strings, the
  statuses are of the enum, and the amount is a non-negative integer that a Number
  holds exactly (up to \<open>2^53\<close>).
\<close>

definition well_formed :: "AttendanceRecord \<Rightarrow> bool" where
  "well_formed r =
     (case collection r of Num q \<Rightarrow> q = of_int \<lfloor>q\<rfloor> \<and> 0 \<le> q \<and> q \<le> 2 ^ 53 | _ \<Rightarrow> False)"

section \<open>Schedule editor (src/index.tsx lines 145--171)\<close>

text \<open>
  The editor's two \<open>useState\<close> cells: the schedule being edited and the text typed
  into each weekday's input.
\<close>

record EditorState =
  schedule :: Schedule
  newOfficerName :: "nat \<rightharpoonup> string"

text \<open>\<open>String.prototype.trim\<close> strips white space from both ends.\<close>

definition trim :: "string \<Rightarrow> string" where
  "trim s = rev (strip (map rev white_space) (rev (strip white_space s)))"

text \<open>
  What the program throws: the \<open>Error\<close> objects it builds itself, with their message,
  and the errors of the platform (a TypeError, the SyntaxError of \<open>JSON.parse\<close>, the
  InvalidCharacterError of \<open>btoa\<close>). Reading a method of \<open>schedule[dayIndex]\<close> when
  the schedule has no such key is a TypeError; the handler stops there and no state
  cell is set.
\<close>

datatype exception = TypeError | SyntaxError | InvalidCharacterError | Error string

text \<open>
  \<open>addOfficer\<close>: \<open>name && \<dots>\<close> is false for a missing or empty (after trim) name,
  before the schedule is looked at.
\<close>

definition addOfficer :: "nat \<Rightarrow> EditorState \<Rightarrow> exception + EditorState" where
  "addOfficer dayIndex st =
     (case map_option trim (newOfficerName st dayIndex) of
        None \<Rightarrow> Inr st
      | Some n \<Rightarrow>
          if n = [] then Inr st
          else (case schedule st dayIndex of
                  None \<Rightarrow> Inl TypeError
                | Some l \<Rightarrow>
                    if n \<in> set l then Inr st
                    else Inr (st\<lparr>schedule := (schedule st)(dayIndex \<mapsto> l @ [n]),
                                 newOfficerName := (newOfficerName st)(dayIndex \<mapsto> [])\<rparr>)))"

definition removeOfficer :: "nat \<Rightarrow> string \<Rightarrow> EditorState \<Rightarrow> exception + EditorState" where
  "removeOfficer dayIndex n st =
     (case schedule st dayIndex of
        None \<Rightarrow> Inl TypeError
      | Some l \<Rightarrow> Inr (st\<lparr>schedule := (schedule st)(dayIndex \<mapsto> filter (\<lambda>m. m \<noteq> n) l)\<rparr>))"

text \<open>The editor's state after a handler has run: a thrown error leaves it as it was.\<close>

definition state_after :: "EditorState \<Rightarrow> exception + EditorState \<Rightarrow> EditorState" where
  "state_after st r = (case r of Inl e \<Rightarrow> st | Inr st' \<Rightarrow> st')"

section \<open>Remote variant of the App (src/index.tsx lines 29--90 and 412--515)\<close>

record GithubSettings =
  user :: string
  repo :: string
  token :: string

text \<open>
  What the program reads from the answer to a GET of the contents API: status 404;
  any other status that is not ok, with its status text; or an ok answer, from which
  it takes \<open>atob(data.content || '')\<close> and \<open>data.sha\<close>. And from the answer to a PUT:
  not ok with its status text, or ok with \<open>result.content.sha\<close>.
\<close>

datatype get_response = GetNotFound | GetRefused string | GetOk string "string option"

datatype put_response = PutRefused string | PutOk "string option"

text \<open>
  The world outside the program. The remote store is any state machine \<open>'w\<close> that
  answers a GET of a path and a PUT of a path, a body and an optional version token
  (both carry the settings: owner, repository, access token). \<open>parse_json\<close> is
  \<open>JSON.parse\<close> (\<open>None\<close>: SyntaxError) and \<open>encode_json\<close> is
  \<open>btoa(JSON.stringify(content, null, 2))\<close> (\<open>None\<close>: \<open>btoa\<close> throws, as it does on a
  character above U+00FF).
\<close>

record 'w env =
  http_get :: "'w \<Rightarrow> GithubSettings \<Rightarrow> string \<Rightarrow> get_response \<times> 'w"
  http_put :: "'w \<Rightarrow> GithubSettings \<Rightarrow> string \<Rightarrow> string \<Rightarrow> string option \<Rightarrow> put_response \<times> 'w"
  parse_json :: "string \<Rightarrow> json option"
  encode_json :: "json \<Rightarrow> string option"

text \<open>
  The roster as a JSON value: an object with the weekday indices 0 to 6 that the
  roster has as keys, in ascending order, as JavaScript keeps integer keys.
\<close>

definition json_of_schedule :: "Schedule \<Rightarrow> json" where
  "json_of_schedule s =
     JObject (concat (map (\<lambda>k. case s k of None \<Rightarrow> [] | Some l \<Rightarrow> [(show_nat k, JArray (map JString l))])
                [0..<7]))"

definition endsWith :: "string \<Rightarrow> string \<Rightarrow> bool" where
  "endsWith s t = (length t \<le> length s \<and> drop (length s - length t) s = t)"

text \<open>
  \<open>getFile\<close>: \<open>null\<close> (here \<open>None\<close>) for a 404; an \<open>Error\<close> for any other refusal; the
  default payload of the path's kind, with the token reported, when the decoded
  content is empty; otherwise the parsed content and the token.
\<close>

definition getFile ::
  "'w env \<Rightarrow> GithubSettings \<Rightarrow> string \<Rightarrow> 'w \<Rightarrow> (exception + (json \<times> string option) option) \<times> 'w" where
  "getFile E settings path w =
     (case http_get E w settings path of
        (GetNotFound, w') \<Rightarrow> (Inr None, w')
      | (GetRefused statusText, w') \<Rightarrow>
          (Inl (Error (''Gagal mengambil file '' @ path @ '': '' @ statusText)), w')
      | (GetOk decodedContent sha, w') \<Rightarrow>
          if decodedContent = []
          then (Inr (Some (if endsWith path ''data.json'' then JArray []
                           else json_of_schedule DEFAULT_JADWAL_RONDA, sha)), w')
          else (case parse_json E decodedContent of
                  None \<Rightarrow> (Inl SyntaxError, w')
                | Some content \<Rightarrow> (Inr (Some (content, sha)), w')))"

text \<open>
  \<open>updateFile\<close>: the token goes into the body only when it is truthy
  (\<open>...(sha && { sha })\<close>). The result is the \<open>result.content.sha\<close> its callers read.
\<close>

definition updateFile ::
  "'w env \<Rightarrow> GithubSettings \<Rightarrow> string \<Rightarrow> json \<Rightarrow> string option \<Rightarrow> 'w \<Rightarrow> (exception + string option) \<times> 'w" where
  "updateFile E settings path content sha w =
     (case encode_json E content of
        None \<Rightarrow> (Inl InvalidCharacterError, w)
      | Some contentBase64 \<Rightarrow>
          (case http_put E w settings path contentBase64 (if sha = Some [] then None else sha) of
             (PutRefused statusText, w') \<Rightarrow>
               (Inl (Error (''Gagal menyimpan file '' @ path @ '': '' @ statusText)), w')
           | (PutOk newSha, w') \<Rightarrow> (Inr newSha, w')))"

text \<open>The alerts of the remote App, and its state: the \<open>useState\<close> and \<open>useRef\<close> cells and
  the \<open>githubSettings\<close> entry of the local storage.\<close>

datatype alert = Saved | SaveFailed exception | LoadFailed exception

record AppState =
  app_records :: json
  app_schedule :: json
  githubSettings :: "GithubSettings option"
  storedSettings :: "GithubSettings option"
  showSettings :: bool
  isInitialized :: bool
  recordsSha :: "string option"
  scheduleSha :: "string option"
  alerts :: "alert list"

text \<open>
  The step \<open>loadDataFromGithub\<close> takes for each of its two documents (lines 439--444
  and 449--453): read the file; when there is none, write the default payload (no
  token) and go on with the default payload and no token.
\<close>

definition getOrCreate ::
  "'w env \<Rightarrow> GithubSettings \<Rightarrow> string \<Rightarrow> json \<Rightarrow> 'w \<Rightarrow> (exception + json \<times> string option) \<times> 'w" where
  "getOrCreate E settings path dflt w =
     (case getFile E settings path w of
        (Inl e, w') \<Rightarrow> (Inl e, w')
      | (Inr (Some data), w') \<Rightarrow> (Inr data, w')
      | (Inr None, w') \<Rightarrow>
          (case updateFile E settings path dflt None w' of
             (Inl e, w'') \<Rightarrow> (Inl e, w'')
           | (Inr newSha, w'') \<Rightarrow> (Inr (dflt, None), w'')))"

text \<open>The \<open>catch\<close> and \<open>finally\<close> blocks of \<open>loadDataFromGithub\<close>.\<close>

definition load_failed :: "exception \<Rightarrow> AppState \<Rightarrow> AppState" where
  "load_failed e st =
     st\<lparr>alerts := alerts st @ [LoadFailed e], storedSettings := None, githubSettings := None,
        showSettings := True, isInitialized := True\<rparr>"

definition loadDataFromGithub :: "'w env \<Rightarrow> GithubSettings \<Rightarrow> AppState \<times> 'w \<Rightarrow> AppState \<times> 'w" where
  "loadDataFromGithub E settings s =
     (if token settings = [] then s
      else
        (case getOrCreate E settings ''schedule.json'' (json_of_schedule DEFAULT_JADWAL_RONDA) (snd s) of
           (Inl e, w1) \<Rightarrow> (load_failed e (fst s), w1)
         | (Inr scheduleData, w1) \<Rightarrow>
             (let st1 = (fst s)\<lparr>app_schedule := fst scheduleData, scheduleSha := snd scheduleData\<rparr>
              in case getOrCreate E settings ''data.json'' (JArray []) w1 of
                   (Inl e, w2) \<Rightarrow> (load_failed e st1, w2)
                 | (Inr recordsData, w2) \<Rightarrow>
                     (st1\<lparr>app_records := fst recordsData, recordsSha := snd recordsData,
                          isInitialized := True\<rparr>, w2))))"

text \<open>
  \<open>[...records, newRecord]\<close>: an array spreads into its elements and a string into
  its characters (code points; in UTF-8 a lead byte with its continuation bytes);
  any other value is not iterable, a TypeError.
\<close>

definition code_points :: "string \<Rightarrow> string list" where
  "code_points s =
     foldr (\<lambda>c groups.
              case groups of
                [] \<Rightarrow> [[c]]
              | g # gs \<Rightarrow>
                  if g \<noteq> [] \<and> 128 \<le> (of_char (hd g) :: nat) \<and> (of_char (hd g) :: nat) < 192
                  then (c # g) # gs else [c] # groups)
       s []"

definition spread :: "json \<Rightarrow> json list option" where
  "spread v =
     (case v of
        JArray xs \<Rightarrow> Some xs
      | JString s \<Rightarrow> Some (map JString (code_points s))
      | _ \<Rightarrow> None)"

text \<open>
  \<open>addRecord\<close> of the remote App (lines 482--498). The collection in memory is set
  only after the write has succeeded; when anything in the \<open>try\<close> block throws, the
  failure is alerted and everything is loaded again.
\<close>

definition addRecord_remote :: "'w env \<Rightarrow> AttendanceRecord \<Rightarrow> AppState \<times> 'w \<Rightarrow> AppState \<times> 'w" where
  "addRecord_remote E newRec s =
     (case githubSettings (fst s) of
        None \<Rightarrow> s
      | Some settings \<Rightarrow>
          (case spread (app_records (fst s)) of
             None \<Rightarrow>
               loadDataFromGithub E settings
                 ((fst s)\<lparr>alerts := alerts (fst s) @ [SaveFailed TypeError]\<rparr>, snd s)
           | Some xs \<Rightarrow>
               (let updatedRecords = JArray (xs @ [json_of_record newRec])
                in case updateFile E settings ''data.json'' updatedRecords (recordsSha (fst s)) (snd s) of
                     (Inr newSha, w') \<Rightarrow>
                       ((fst s)\<lparr>recordsSha := newSha, app_records := updatedRecords,
                               alerts := alerts (fst s) @ [Saved]\<rparr>, w')
                   | (Inl e, w') \<Rightarrow>
                       loadDataFromGithub E settings
                         ((fst s)\<lparr>alerts := alerts (fst s) @ [SaveFailed e]\<rparr>, w'))))"

subsection \<open>A remote store for the examples\<close>

text \<open>
  One world, for the examples: a remote file store as the specification describes it
  (sections 4.3 and 6; the store is a service, not code of the repository). A
  document is a text with a version token;
  a GET answers not-found for a path without document; a PUT creates a document when
  there is none and no token is sent, replaces it when the token sent is the current
  one, and is refused otherwise; the new token names the new content. Two things a
  service can do besides: it refuses every write when the access token may only read
  (\<open>writable\<close> is false), and it answers \<open>answers_left\<close> more requests and refuses
  every one after that, as an unreachable service does. The store serves the
  examples; the results hold for every world.
\<close>

record store =
  files :: "string \<rightharpoonup> string \<times> string"
  writable :: bool
  answers_left :: nat

definition store_get :: "store \<Rightarrow> GithubSettings \<Rightarrow> string \<Rightarrow> get_response \<times> store" where
  "store_get w settings path =
     (if answers_left w = 0 then (GetRefused ''Service Unavailable'', w)
      else (case files w path of
              None \<Rightarrow> GetNotFound
            | Some d \<Rightarrow> GetOk (fst d) (Some (snd d)),
            w\<lparr>answers_left := answers_left w - 1\<rparr>))"

definition store_put ::
  "store \<Rightarrow> GithubSettings \<Rightarrow> string \<Rightarrow> string \<Rightarrow> string option \<Rightarrow> put_response \<times> store" where
  "store_put w settings path body sha =
     (if answers_left w = 0 then (PutRefused ''Service Unavailable'', w)
      else if \<not> writable w then (PutRefused ''Forbidden'', w\<lparr>answers_left := answers_left w - 1\<rparr>)
      else if sha = map_option snd (files w path)
      then (PutOk (Some (''blob '' @ body)),
            w\<lparr>files := (files w)(path \<mapsto> (body, ''blob '' @ body)), answers_left := answers_left w - 1\<rparr>)
      else (PutRefused ''Conflict'', w\<lparr>answers_left := answers_left w - 1\<rparr>))"

definition store_env :: "store env" where
  "store_env =
     \<lparr>http_get = store_get, http_put = store_put, parse_json = JSON_parse,
      encode_json = (\<lambda>v. Some (JSON_stringify (\<lambda>q. []) v))\<rparr>"

section \<open>A worked scenario\<close>

text \<open>
  The scenario of the specification: the roster of weekday 1 is A and B, the date is
  Monday 2024-01-01, B is marked Ijin (A keeps the initial Hadir), the notes are empty
  and the text typed into the collection field is 50000.
\<close>

definition scenario_schedule :: Schedule where
  "scenario_schedule = [1 \<mapsto> [''A'', ''B'']]"

definition scenario_clock :: Clock where
  "scenario_clock =
     \<lparr>dayOfWeek = 1, todayDateString = ''2024-01-01'', nowISOString = ''2024-01-01T13:05:00.000Z''\<rparr>"

definition scenario_form :: FormState where
  "scenario_form =
     handleCollectionChange ''50000''
       (handleStatusChange ''B'' Ijin (initialForm (officersOnDuty scenario_schedule 1)))"

definition scenario_record :: AttendanceRecord where
  "scenario_record =
     \<lparr>id_r = ''2024-01-01T13:05:00.000Z'', date = ''2024-01-01'', day = ''Senin malam Selasa'',
      officers = [\<lparr>name = ''A'', status = Hadir\<rparr>, \<lparr>name = ''B'', status = Ijin\<rparr>],
      notes_r = [], collection = Num 50000\<rparr>"

definition scenario_later :: AttendanceRecord where
  "scenario_later = scenario_record\<lparr>id_r := ''2024-01-02T13:00:00.000Z'', date := ''2024-01-02'',
     day := ''Selasa malam Rabu''\<rparr>"

text \<open>
  A record as an imported file can bring it (the import checks nothing but that the
  file holds an array): its date is no date.
\<close>

definition scenario_undated :: AttendanceRecord where
  "scenario_undated = scenario_record\<lparr>id_r := ''x'', date := ''kemarin''\<rparr>"

text \<open>A date function for the examples: it knows the two dates of the scenario.\<close>

definition scenario_getTime :: "string \<Rightarrow> int option" where
  "scenario_getTime s =
     (if s = ''2024-01-01'' then Some 1704067200000
      else if s = ''2024-01-02'' then Some 1704153600000 else None)"

definition scenario_editor :: EditorState where
  "scenario_editor = \<lparr>schedule = [1 \<mapsto> [''A'', ''B'', ''A''], 2 \<mapsto> [''C'']],
     newOfficerName = [1 \<mapsto> '' D '']\<rparr>"

text \<open>
  The remote App in the scenario: it holds the record of 2024-01-01 under the version
  token v1, while the store by now holds that record and the one of 2024-01-02 under
  the token v2, and has no \<open>schedule.json\<close>.
\<close>

definition scenario_settings :: GithubSettings where
  "scenario_settings = \<lparr>user = ''blokh'', repo = ''ronda-data'', token = ''t0k3n''\<rparr>"

definition scenario_app :: AppState where
  "scenario_app =
     \<lparr>app_records = JArray [json_of_record scenario_record],
      app_schedule = json_of_schedule scenario_schedule,
      githubSettings = Some scenario_settings,
      storedSettings = Some scenario_settings,
      showSettings = False,
      isInitialized = True,
      recordsSha = Some ''v1'',
      scheduleSha = None,
      alerts = []\<rparr>"

definition scenario_remote_text :: string where
  "scenario_remote_text =
     JSON_stringify (\<lambda>q. []) (JArray [json_of_record scenario_record, json_of_record scenario_later])"

definition scenario_store :: "nat \<Rightarrow> store" where
  "scenario_store n =
     \<lparr>files = [''data.json'' \<mapsto> (scenario_remote_text, ''v2'')], writable = True, answers_left = n\<rparr>"

definition empty_store :: "bool \<Rightarrow> store" where
  "empty_store may_write = \<lparr>files = Map.empty, writable = may_write, answers_left = 8\<rparr>"

section \<open>Notions used in the proofs\<close>

text \<open>
  The tokens of a JSON value, in the order its text shows them, and the values of the
  round trip: numbers that are non-negative integers up to \<open>2^53\<close>, objects whose keys
  are distinct and none of them an array index.
\<close>

fun tokens_of :: "json \<Rightarrow> token list"
  and tokens_of_elements :: "json list \<Rightarrow> token list"
  and tokens_of_members :: "(string \<times> json) list \<Rightarrow> token list"
where
  "tokens_of JNull = [TNull]"
| "tokens_of (JBool b) = [if b then TTrue else TFalse]"
| "tokens_of (JNumber n) = [TNumber n]"
| "tokens_of (JString s) = [TString s]"
| "tokens_of (JArray xs) = TLBracket # tokens_of_elements xs @ [TRBracket]"
| "tokens_of (JObject ps) = TLBrace # tokens_of_members ps @ [TRBrace]"
| "tokens_of_elements [] = []"
| "tokens_of_elements (x # xs) =
     tokens_of x @ (if xs = [] then [] else [TComma]) @ tokens_of_elements xs"
| "tokens_of_members [] = []"
| "tokens_of_members (p # ps) =
     TString (fst p) # TColon # tokens_of (snd p) @ (if ps = [] then [] else [TComma])
       @ tokens_of_members ps"

fun plain :: "json \<Rightarrow> bool"
  and plain_elements :: "json list \<Rightarrow> bool"
  and plain_members :: "(string \<times> json) list \<Rightarrow> bool"
where
  "plain JNull = True"
| "plain (JBool b) = True"
| "plain (JNumber n) = (case n of Num q \<Rightarrow> q = of_int \<lfloor>q\<rfloor> \<and> 0 \<le> q \<and> q \<le> 2 ^ 53 | _ \<Rightarrow> False)"
| "plain (JString s) = True"
| "plain (JArray xs) = plain_elements xs"
| "plain (JObject ps) = (distinct (map fst ps) \<and> plain_members ps)"
| "plain_elements [] = True"
| "plain_elements (x # xs) = (plain x \<and> plain_elements xs)"
| "plain_members [] = True"
| "plain_members (p # ps) = (\<not> is_array_index (fst p) \<and> plain (snd p) \<and> plain_members ps)"

definition safe_rest :: "string \<Rightarrow> bool" where
  "safe_rest rest = (rest = [] \<or> \<not> numchar (hd rest))"

text \<open>The byte a piece stands for when it is a raw byte or an escape below 128.\<close>

fun piece_byte :: "piece \<Rightarrow> char" where
  "piece_byte (Raw c) = c"
| "piece_byte (Unit u) = char_of u"

fun simple_piece :: "piece \<Rightarrow> bool" where
  "simple_piece (Raw c) = True"
| "simple_piece (Unit u) = (u < 128)"

definition spaces :: "string \<Rightarrow> bool" where
  "spaces ind = (\<forall>c\<in>set ind. c = CHR '' '')"

section \<open>Results\<close>

subsection \<open>Auxiliary facts about numbers and digit strings\<close>

lemma powi_diff_nat: "(2::rat) powi (int m - int n) = 2 ^ m / 2 ^ n"
  by (simp add: power_int_diff)

lemma ilog2_bounds:
  assumes "0 < x"
  shows "2 powi (ilog2 x) \<le> x \<and> x < 2 powi (ilog2 x + 1)"
proof -
  obtain a b where q: "quotient_of x = (a, b)" by (cases "quotient_of x")
  then have x: "x = of_int a / of_int b" by (rule quotient_of_div)
  have b: "0 < b" using q by (rule quotient_of_denom_pos)
  have a: "0 < a" using assms x b by (simp add: zero_less_divide_iff)
  define la where "la = floorlog 2 (nat a)"
  define lb where "lb = floorlog 2 (nat b)"
  have A: "2 ^ (la - 1) \<le> nat a \<and> nat a < 2 ^ la"
    unfolding la_def using a by (intro floorlog_bounds) auto
  have B: "2 ^ (lb - 1) \<le> nat b \<and> nat b < 2 ^ lb"
    unfolding lb_def using b by (intro floorlog_bounds) auto
  have la: "0 < la" using A a by (cases la) auto
  have lb: "0 < lb" using B b by (cases lb) auto
  have ar: "(2::rat) ^ (la - 1) \<le> of_int a" "of_int a < (2::rat) ^ la"
  proof -
    have "of_nat (2 ^ (la - 1)) \<le> (of_nat (nat a) :: rat)" using A by (simp only: of_nat_le_iff)
    then show "(2::rat) ^ (la - 1) \<le> of_int a" using a by simp
    have "(of_nat (nat a) :: rat) < of_nat (2 ^ la)" using A by (simp only: of_nat_less_iff)
    then show "of_int a < (2::rat) ^ la" using a by simp
  qed
  have br: "(2::rat) ^ (lb - 1) \<le> of_int b" "of_int b < (2::rat) ^ lb"
  proof -
    have "of_nat (2 ^ (lb - 1)) \<le> (of_nat (nat b) :: rat)" using B by (simp only: of_nat_le_iff)
    then show "(2::rat) ^ (lb - 1) \<le> of_int b" using b by simp
    have "(of_nat (nat b) :: rat) < of_nat (2 ^ lb)" using B by (simp only: of_nat_less_iff)
    then show "of_int b < (2::rat) ^ lb" using b by simp
  qed
  have bpos: "(0::rat) < of_int b" using b by simp
  have apos: "(0::rat) < of_int a" using a by simp
  have up: "x < 2 powi (int la - int lb + 1)"
  proof -
    have "x < 2 ^ la / 2 ^ (lb - 1)"
      unfolding x using ar br apos bpos
      by (intro frac_less) auto
    also have "\<dots> = 2 powi (int la - int (lb - 1))" by (simp only: powi_diff_nat)
    also have "int la - int (lb - 1) = int la - int lb + 1" using lb by simp
    finally show ?thesis .
  qed
  have lo: "2 powi (int la - int lb - 1) \<le> x"
  proof -
    have "(2::rat) ^ (la - 1) / 2 ^ lb \<le> x"
      unfolding x using ar br apos bpos
      by (intro frac_le) auto
    moreover have "(2::rat) ^ (la - 1) / 2 ^ lb = 2 powi (int (la - 1) - int lb)" by (simp only: powi_diff_nat)
    moreover have "int (la - 1) - int lb = int la - int lb - 1" using la by simp
    moreover have "int la - 1 - int lb = int la - int lb - 1" by simp
    ultimately show ?thesis by (simp add: algebra_simps)
  qed
  have e: "ilog2 x = (if 2 powi (int la - int lb) \<le> x then int la - int lb else int la - int lb - 1)"
    by (simp add: ilog2_def q la_def lb_def Let_def)
  show ?thesis
  proof (cases "2 powi (int la - int lb) \<le> x")
    case True
    then show ?thesis using up e by simp
  next
    case False
    then show ?thesis using lo e by simp
  qed
qed

lemma roundTiesToEven_of_int: "roundTiesToEven (of_int k) = k"
  by (simp add: roundTiesToEven_def)


lemma powi_less_cancel: "(2::rat) powi a < 2 powi b \<Longrightarrow> a < b"
proof (rule ccontr)
  assume h: "(2::rat) powi a < 2 powi b" and "\<not> a < b"
  then have "b \<le> a" by simp
  then have "(2::rat) powi b \<le> 2 powi a" by (rule power_int_increasing) simp
  with h show False by simp
qed

lemma ilog2_nat_nonneg:
  assumes "0 < n"
  shows "0 \<le> ilog2 (of_nat n)"
proof -
  have "(1::rat) \<le> of_nat n" using assms by simp
  moreover have "of_nat n < (2::rat) powi (ilog2 (of_nat n) + 1)"
    using ilog2_bounds [of "of_nat n"] assms by simp
  ultimately have "(2::rat) powi 0 < 2 powi (ilog2 (of_nat n) + 1)" by simp
  then have "0 < ilog2 (of_nat n) + 1" by (rule powi_less_cancel)
  then show ?thesis by simp
qed

lemma toNumber_exact:
  assumes k: "\<bar>x\<bar> / 2 powi (max (ilog2 \<bar>x\<bar>) (- 1022) - 52) = of_int k"
    and fin: "\<bar>x\<bar> < 2 ^ 1024 - 2 ^ 970"
  shows "toNumber x = Num x"
proof (cases "x = 0")
  case True
  then show ?thesis by (simp add: toNumber_def)
next
  case False
  define q where "q = max (ilog2 \<bar>x\<bar>) (- 1022) - 52"
  have "roundTiesToEven (\<bar>x\<bar> / 2 powi q) = k"
    using k by (simp only: q_def roundTiesToEven_of_int)
  moreover have "of_int k * (2::rat) powi q = \<bar>x\<bar>"
    using k [symmetric] by (simp add: q_def)
  moreover have "sgn x * \<bar>x\<bar> = x" by (simp add: sgn_mult_abs)
  ultimately have "sgn x * of_int (roundTiesToEven (\<bar>x\<bar> / 2 powi q)) * 2 powi q = x"
    by (simp add: mult.assoc)
  then show ?thesis using False fin by (simp add: toNumber_def q_def Let_def)
qed

lemma toNumber_nat_exact:
  assumes "n \<le> 2 ^ 53"
  shows "toNumber (of_nat n) = Num (of_nat n)"
proof (cases "n = 0")
  case True
  then show ?thesis by (simp add: toNumber_def)
next
  case False
  define x :: rat where "x = of_nat n"
  define e where "e = ilog2 x"
  have xpos: "0 < x" using False by (simp add: x_def)
  have e0: "0 \<le> e" using False ilog2_nat_nonneg [of n] by (simp add: x_def e_def)
  have xle: "x \<le> 2 ^ 53"
  proof -
    have "(of_nat n :: rat) \<le> of_nat (2 ^ 53)" using assms by (simp only: of_nat_le_iff)
    then show ?thesis by (simp add: x_def)
  qed
  have "2 powi e \<le> x" using ilog2_bounds [OF xpos] by (simp add: e_def)
  then have "(2::rat) powi e < 2 powi 54" using xle by simp
  then have e53: "e < 54" by (rule powi_less_cancel)
  have q: "max (ilog2 \<bar>x\<bar>) (- 1022) - 52 = e - 52" using e0 xpos by (simp add: e_def)
  have "\<exists>k. \<bar>x\<bar> / 2 powi (e - 52) = of_int k"
  proof (cases "e \<le> 52")
    case True
    then have "\<bar>x\<bar> / 2 powi (e - 52) = of_int (int n * 2 ^ nat (52 - e))"
      using xpos by (simp add: power_int_def x_def field_simps)
    then show ?thesis ..
  next
    case False
    then have e: "e = 53" using e53 by simp
    have "(2::rat) ^ 53 \<le> x" using \<open>2 powi e \<le> x\<close> e by simp
    then have "x = 2 ^ 53" using xle by simp
    then have "\<bar>x\<bar> / 2 powi (e - 52) = of_int (2 ^ 52)" using e by simp
    then show ?thesis ..
  qed
  then obtain k where "\<bar>x\<bar> / 2 powi (max (ilog2 \<bar>x\<bar>) (- 1022) - 52) = of_int k"
    using q by auto
  moreover have "\<bar>x\<bar> < 2 ^ 1024 - 2 ^ 970" using xle xpos by simp
  ultimately have "toNumber x = Num x" by (rule toNumber_exact)
  then show ?thesis by (simp add: x_def)
qed




lemma digits_value_snoc: "digits_value (Z @ [c]) = 10 * digits_value Z + digit_value c"
  by (simp add: digits_value_def)












subsection \<open>C1: a second submission for the same date is rejected\<close>

text \<open>
  C1. For every record collection and every date D: if the collection already holds a
  record whose date is D, a submission on date D creates no record (nothing is passed
  to \<open>addRecord\<close>) and leaves the collection as it was, same length and same elements.
\<close>

theorem C1_resubmission_rejected:
  assumes "r \<in> set records" and "date r = todayDateString clock"
  shows "fst (handleSubmit sched clock records form) = None
       \<and> snd (submit sched clock (form, records)) = records
       \<and> length (snd (submit sched clock (form, records))) = length records"
proof -
  from assms have "isAlreadySubmitted records (todayDateString clock)"
    by (auto simp: isAlreadySubmitted_def list_ex_iff)
  then show ?thesis
    by (simp add: handleSubmit_def submit_def)
qed

theorem C1_resubmission_rejected_witness:
  "scenario_record \<in> set [scenario_record]
   \<and> date scenario_record = todayDateString scenario_clock
   \<and> fst (handleSubmit scenario_schedule scenario_clock [scenario_record] scenario_form) = None
   \<and> snd (submit scenario_schedule scenario_clock (scenario_form, [scenario_record])) = [scenario_record]
   \<and> length (snd (submit scenario_schedule scenario_clock (scenario_form, [scenario_record]))) = 1"
proof -
  have d: "date scenario_record = todayDateString scenario_clock"
    by (simp add: scenario_record_def scenario_clock_def)
  have m: "scenario_record \<in> set [scenario_record]" by simp
  show ?thesis
    using C1_resubmission_rejected [OF m d, of scenario_schedule scenario_form] m d by simp
qed

subsection \<open>C2: the worked scenario\<close>


subsection \<open>C3: the collection amount\<close>




subsection \<open>Auxiliary facts about the sort\<close>

lemma consistent_subset: "consistent c S \<Longrightarrow> T \<subseteq> S \<Longrightarrow> consistent c T"
  unfolding consistent_def by (meson subsetD)

lemma consistent_greater:
  assumes "consistent c S" and "a \<in> S" and "b \<in> S" and "c a b > 0"
  shows "c b a < 0"
proof (rule ccontr)
  assume "\<not> c b a < 0"
  then consider "c b a = 0" | "c b a > 0" by linarith
  then show False
  proof cases
    case 1
    then have "c a b = 0" using assms(1-3) unfolding consistent_def by blast
    with assms(4) show False by simp
  next
    case 2
    with assms(4) have "c a a > 0" using assms(1-3) unfolding consistent_def by blast
    moreover have "c a a = 0" using assms(1,2) unfolding consistent_def by blast
    ultimately show False by simp
  qed
qed

lemma consistent_less:
  assumes "consistent c S" and "a \<in> S" and "b \<in> S" and "c a b < 0"
  shows "c b a > 0"
proof (rule ccontr)
  assume "\<not> c b a > 0"
  then consider "c b a = 0" | "c b a < 0" by linarith
  then show False
  proof cases
    case 1
    then have "c a b = 0" using assms(1-3) unfolding consistent_def by blast
    with assms(4) show False by simp
  next
    case 2
    with assms(4) have "c a a < 0" using assms(1-3) unfolding consistent_def by blast
    moreover have "c a a = 0" using assms(1,2) unfolding consistent_def by blast
    ultimately show False by simp
  qed
qed

lemma consistent_le_trans:
  assumes k: "consistent c S" and a: "a \<in> S" and b: "b \<in> S" and d: "d \<in> S"
    and ab: "c a b \<le> 0" and bd: "c b d \<le> 0"
  shows "c a d \<le> 0"
proof (rule ccontr)
  assume "\<not> c a d \<le> 0"
  then have ad: "c a d > 0" by simp
  then have da: "c d a < 0" using consistent_greater [OF k a d] by simp
  consider "c a b < 0" | "c a b = 0 \<and> c b d < 0" | "c a b = 0 \<and> c b d = 0"
    using ab bd by linarith
  then show False
  proof cases
    case 1
    with da have "c d b < 0" using k a b d unfolding consistent_def by blast
    then have "c b d > 0" using consistent_less [OF k d b] by simp
    with bd show False by simp
  next
    case 2
    with da have "c b a < 0" using k a b d unfolding consistent_def by blast
    then have "c a b > 0" using consistent_less [OF k b a] by simp
    with 2 show False by simp
  next
    case 3
    then have "c a d = 0" using k a b d unfolding consistent_def by blast
    with ad show False by simp
  qed
qed

lemma mset_insert_sorted: "mset (insert_sorted f x ys) = add_mset x (mset ys)"
  by (induction ys) auto

lemma mset_array_sort: "mset (array_sort f xs) = mset xs"
  by (induction xs) (auto simp: mset_insert_sorted)

lemma set_insert_sorted: "set (insert_sorted f x ys) = insert x (set ys)"
  using mset_insert_sorted [of f x ys] by (metis set_mset_mset set_mset_add_mset_insert)

lemma set_array_sort: "set (array_sort f xs) = set xs"
  using mset_array_sort [of f xs] by (metis set_mset_mset)

lemma sorted_insert_sorted:
  assumes "consistent (SortCompare f) S" and "x \<in> S" and "set ys \<subseteq> S"
    and "sorted_wrt (\<lambda>a b. SortCompare f a b \<le> 0) ys"
  shows "sorted_wrt (\<lambda>a b. SortCompare f a b \<le> 0) (insert_sorted f x ys)"
  using assms(3,4)
proof (induction ys)
  case Nil
  then show ?case by simp
next
  case (Cons y ys)
  show ?case
  proof (cases "SortCompare f x y \<le> 0")
    case True
    have "\<forall>z\<in>set ys. SortCompare f x z \<le> 0"
    proof
      fix z assume z: "z \<in> set ys"
      then have "SortCompare f y z \<le> 0" using Cons.prems(2) by simp
      with True show "SortCompare f x z \<le> 0"
        using consistent_le_trans [OF assms(1,2), of y z] Cons.prems(1) z by auto
    qed
    with True Cons.prems(2) show ?thesis by simp
  next
    case False
    then have "SortCompare f x y > 0" by simp
    then have "SortCompare f y x < 0"
      using consistent_greater [OF assms(1,2), of y] Cons.prems(1) by simp
    moreover have "sorted_wrt (\<lambda>a b. SortCompare f a b \<le> 0) (insert_sorted f x ys)"
      using Cons by simp
    ultimately show ?thesis using False Cons.prems(2) by (auto simp: set_insert_sorted)
  qed
qed

lemma sorted_array_sort:
  assumes "consistent (SortCompare f) (set xs)"
  shows "sorted_wrt (\<lambda>a b. SortCompare f a b \<le> 0) (array_sort f xs)"
  using assms
proof (induction xs)
  case Nil
  then show ?case by simp
next
  case (Cons x xs)
  have "consistent (SortCompare f) (set xs)"
    using Cons.prems by (rule consistent_subset) auto
  then have "sorted_wrt (\<lambda>a b. SortCompare f a b \<le> 0) (array_sort f xs)"
    using Cons.IH by simp
  then have "sorted_wrt (\<lambda>a b. SortCompare f a b \<le> 0) (insert_sorted f x (array_sort f xs))"
    by (intro sorted_insert_sorted [OF Cons.prems]) (auto simp: set_array_sort)
  then show ?case by simp
qed

lemma stable_insert_sorted:
  assumes "consistent (SortCompare f) S" and "a \<in> S" and "x \<in> S" and "set ys \<subseteq> S"
  shows "filter (\<lambda>b. SortCompare f a b = 0) (insert_sorted f x ys)
       = filter (\<lambda>b. SortCompare f a b = 0) (x # ys)"
  using assms(4)
proof (induction ys)
  case Nil
  then show ?case by simp
next
  case (Cons y ys)
  show ?case
  proof (cases "SortCompare f x y \<le> 0")
    case True
    then show ?thesis by simp
  next
    case False
    have "\<not> (SortCompare f a x = 0 \<and> SortCompare f a y = 0)"
    proof
      assume h: "SortCompare f a x = 0 \<and> SortCompare f a y = 0"
      then have "SortCompare f x a = 0"
        using assms(1-3) unfolding consistent_def by blast
      with h have "SortCompare f x y = 0"
        using assms(1-3) Cons.prems unfolding consistent_def by (meson list.set_intros(1) subsetD)
      with False show False by simp
    qed
    moreover have "filter (\<lambda>b. SortCompare f a b = 0) (insert_sorted f x ys)
       = filter (\<lambda>b. SortCompare f a b = 0) (x # ys)"
      using Cons by simp
    ultimately show ?thesis using False by auto
  qed
qed

lemma stable_array_sort:
  assumes "consistent (SortCompare f) S" and "a \<in> S" and "set xs \<subseteq> S"
  shows "filter (\<lambda>b. SortCompare f a b = 0) (array_sort f xs) = filter (\<lambda>b. SortCompare f a b = 0) xs"
  using assms(3)
proof (induction xs)
  case Nil
  then show ?case by simp
next
  case (Cons x xs)
  have "filter (\<lambda>b. SortCompare f a b = 0) (insert_sorted f x (array_sort f xs))
      = filter (\<lambda>b. SortCompare f a b = 0) (x # array_sort f xs)"
    using Cons.prems by (intro stable_insert_sorted [OF assms(1,2)]) (auto simp: set_array_sort)
  with Cons show ?case by simp
qed

lemma array_sort_conforming: "conforming array_sort"
  unfolding conforming_def
proof (intro allI conjI impI ballI)
  fix f :: "'a \<Rightarrow> 'a \<Rightarrow> int option" and xs :: "'a list"
  show "mset (array_sort f xs) = mset xs" by (rule mset_array_sort)
  assume k: "consistent (SortCompare f) (set xs)"
  then show "sorted_wrt (\<lambda>a b. SortCompare f a b \<le> 0) (array_sort f xs)"
    by (rule sorted_array_sort)
  fix a assume "a \<in> set xs"
  with k show "filter (\<lambda>b. SortCompare f a b = 0) (array_sort f xs) = filter (\<lambda>b. SortCompare f a b = 0) xs"
    by (rule stable_array_sort) simp
qed

lemma compareDates_same_date:
  "date a = date b \<Longrightarrow> SortCompare (compareDates getTime) a b = 0"
  by (simp add: SortCompare_def compareDates_def split: option.splits)

lemma compareDates_valid:
  assumes "getTime (date a) = Some ta" and "getTime (date b) = Some tb"
  shows "SortCompare (compareDates getTime) a b = tb - ta"
  using assms by (simp add: SortCompare_def compareDates_def)

lemma compareDates_the:
  assumes "getTime (date a) \<noteq> None" and "getTime (date b) \<noteq> None"
  shows "SortCompare (compareDates getTime) a b = the (getTime (date b)) - the (getTime (date a))"
proof -
  obtain ta tb where "getTime (date a) = Some ta" "getTime (date b) = Some tb"
    using assms by auto
  then show ?thesis by (simp add: compareDates_valid)
qed

lemma consistent_same_date:
  assumes "\<forall>r\<in>S. date r = D"
  shows "consistent (SortCompare (compareDates getTime)) S"
  unfolding consistent_def using assms by (simp add: compareDates_same_date)

lemma consistent_valid_dates:
  assumes "\<forall>r\<in>S. getTime (date r) \<noteq> None"
  shows "consistent (SortCompare (compareDates getTime)) S"
proof -
  have c: "SortCompare (compareDates getTime) a b = the (getTime (date b)) - the (getTime (date a))"
    if "a \<in> S" "b \<in> S" for a b
    using that assms by (simp add: compareDates_the)
  show ?thesis unfolding consistent_def by (auto simp: c)
qed

lemma sort_same_date:
  assumes "conforming sortfn" and "\<forall>r\<in>set xs. date r = D"
  shows "sortfn (compareDates getTime) xs = xs"
proof (cases xs)
  case Nil
  have "mset (sortfn (compareDates getTime) xs) = mset xs"
    using assms(1) unfolding conforming_def by blast
  with Nil show ?thesis by simp
next
  case (Cons x xs')
  let ?ys = "sortfn (compareDates getTime) xs"
  have k: "consistent (SortCompare (compareDates getTime)) (set xs)"
    using assms(2) by (rule consistent_same_date)
  have m: "mset ?ys = mset xs" using assms(1) unfolding conforming_def by blast
  then have s: "set ?ys = set xs" by (metis set_mset_mset)
  have "x \<in> set xs" using Cons by simp
  then have f: "filter (\<lambda>b. SortCompare (compareDates getTime) x b = 0) ?ys
      = filter (\<lambda>b. SortCompare (compareDates getTime) x b = 0) xs"
    using assms(1) k unfolding conforming_def by blast
  have e: "\<forall>b\<in>set xs. SortCompare (compareDates getTime) x b = 0"
    using assms(2) \<open>x \<in> set xs\<close> by (simp add: compareDates_same_date)
  have "filter (\<lambda>b. SortCompare (compareDates getTime) x b = 0) ?ys = ?ys"
    using e s by (simp add: filter_id_conv)
  moreover have "filter (\<lambda>b. SortCompare (compareDates getTime) x b = 0) xs = xs"
    using e by (simp add: filter_id_conv)
  ultimately show ?thesis using f by simp
qed

lemma sort_valid_dates:
  assumes "conforming sortfn" and "\<forall>r\<in>set xs. getTime (date r) \<noteq> None"
  shows "sorted_wrt (\<lambda>a b. the (getTime (date b)) \<le> the (getTime (date a))) (sortfn (compareDates getTime) xs)"
proof -
  let ?ys = "sortfn (compareDates getTime) xs"
  have k: "consistent (SortCompare (compareDates getTime)) (set xs)"
    using assms(2) by (rule consistent_valid_dates)
  have m: "mset ?ys = mset xs" using assms(1) unfolding conforming_def by blast
  then have s: "set ?ys = set xs" by (metis set_mset_mset)
  have "sorted_wrt (\<lambda>a b. SortCompare (compareDates getTime) a b \<le> 0) ?ys"
    using assms(1) k unfolding conforming_def by blast
  then show ?thesis
  proof (rule sorted_wrt_mono_rel [rotated])
    fix a b assume "a \<in> set ?ys" "b \<in> set ?ys" "SortCompare (compareDates getTime) a b \<le> 0"
    then show "the (getTime (date b)) \<le> the (getTime (date a))"
      using assms(2) s by (simp add: compareDates_the)
  qed
qed

subsection \<open>C4: the Recap View's filter\<close>

text \<open>
  C4, as stated, fails: it speaks of every record collection, and a collection can
  hold a record whose date does not parse (an imported file is not checked for that).
  The comparisons with such a record are NaN, which the sort reads as 0, so it
  separates nothing: in the collection 2024-01-01, kemarin, 2024-01-02 no adjacent
  pair is out of order for the comparator, the insertion sort leaves the list as it
  is, and with the empty filter the record of 2024-01-01 is shown before that of
  2024-01-02. The comparator is not consistent on this collection (both records
  compare equal to the one between them and differ from each other), so the standard
  promises no order of any engine here.
\<close>

theorem C4_counterexample:
  "filteredRecords array_sort scenario_getTime [scenario_record, scenario_undated, scenario_later] []
     = [scenario_record, scenario_undated, scenario_later]
   \<and> scenario_getTime (date scenario_undated) = None
   \<and> scenario_getTime (date scenario_record) = Some 1704067200000
   \<and> scenario_getTime (date scenario_later) = Some 1704153600000
   \<and> \<not> sorted_wrt (\<lambda>a b. the (scenario_getTime (date b)) \<le> the (scenario_getTime (date a)))
         (filteredRecords array_sort scenario_getTime [scenario_record, scenario_undated, scenario_later] [])
   \<and> SortCompare (compareDates scenario_getTime) scenario_record scenario_undated = 0
   \<and> SortCompare (compareDates scenario_getTime) scenario_undated scenario_later = 0
   \<and> SortCompare (compareDates scenario_getTime) scenario_record scenario_later = 86400000
   \<and> \<not> consistent (SortCompare (compareDates scenario_getTime))
         (set [scenario_record, scenario_undated, scenario_later])"
proof -
  have c: "SortCompare (compareDates scenario_getTime) scenario_record scenario_undated = 0
      \<and> SortCompare (compareDates scenario_getTime) scenario_undated scenario_later = 0
      \<and> SortCompare (compareDates scenario_getTime) scenario_record scenario_later = 86400000"
    by (simp add: scenario_record_def scenario_later_def scenario_undated_def
        scenario_getTime_def compareDates_def SortCompare_def)
  have "\<not> consistent (SortCompare (compareDates scenario_getTime))
         (set [scenario_record, scenario_undated, scenario_later])"
  proof
    assume "consistent (SortCompare (compareDates scenario_getTime))
         (set [scenario_record, scenario_undated, scenario_later])"
    then have "SortCompare (compareDates scenario_getTime) scenario_record scenario_undated = 0
        \<and> SortCompare (compareDates scenario_getTime) scenario_undated scenario_later = 0
      \<longrightarrow> SortCompare (compareDates scenario_getTime) scenario_record scenario_later = 0"
      unfolding consistent_def by (meson list.set_intros)
    with c show False by simp
  qed
  moreover have "filteredRecords array_sort scenario_getTime [scenario_record, scenario_undated, scenario_later] []
     = [scenario_record, scenario_undated, scenario_later]
   \<and> scenario_getTime (date scenario_undated) = None
   \<and> scenario_getTime (date scenario_record) = Some 1704067200000
   \<and> scenario_getTime (date scenario_later) = Some 1704153600000
   \<and> \<not> sorted_wrt (\<lambda>a b. the (scenario_getTime (date b)) \<le> the (scenario_getTime (date a)))
         (filteredRecords array_sort scenario_getTime [scenario_record, scenario_undated, scenario_later] [])"
    by (simp add: filteredRecords_def scenario_record_def scenario_later_def scenario_undated_def
        scenario_getTime_def compareDates_def SortCompare_def)
  ultimately show ?thesis using c by blast
qed

text \<open>
  C4, amended. Whatever conforming sort the engine has: for every record collection
  and every non-empty date string D the filtered result is exactly the list of the
  records whose date is D, no others and none missing, in the order of the
  collection. For the empty filter string the result holds the whole collection, each
  record as often as the collection does; and when every date of the collection
  parses (\<open>new Date(r.date)\<close> is a valid date, as for the YYYY-MM-DD dates the form
  writes), it is ordered by date descending, the order being that of the time values.
\<close>

theorem C4_recap_filter:
  assumes "conforming sortfn"
  shows "(filterDate \<noteq> [] \<longrightarrow>
      filteredRecords sortfn getTime records filterDate = filter (\<lambda>r. date r = filterDate) records)
   \<and> mset (filteredRecords sortfn getTime records []) = mset records
   \<and> ((\<forall>r\<in>set records. getTime (date r) \<noteq> None) \<longrightarrow>
        sorted_wrt (\<lambda>a b. the (getTime (date b)) \<le> the (getTime (date a)))
          (filteredRecords sortfn getTime records []))"
proof -
  have "sortfn (compareDates getTime) (filter (\<lambda>r. date r = filterDate) records)
      = filter (\<lambda>r. date r = filterDate) records"
    using assms by (rule sort_same_date [where D = filterDate]) simp
  then have 1: "filterDate \<noteq> [] \<longrightarrow>
      filteredRecords sortfn getTime records filterDate = filter (\<lambda>r. date r = filterDate) records"
    by (simp add: filteredRecords_def)
  have 2: "mset (filteredRecords sortfn getTime records []) = mset records"
    using assms unfolding conforming_def by (simp add: filteredRecords_def)
  have 3: "(\<forall>r\<in>set records. getTime (date r) \<noteq> None) \<longrightarrow>
        sorted_wrt (\<lambda>a b. the (getTime (date b)) \<le> the (getTime (date a)))
          (filteredRecords sortfn getTime records [])"
    using sort_valid_dates [OF assms] by (simp add: filteredRecords_def)
  from 1 2 3 show ?thesis by blast
qed

theorem C4_recap_filter_witness:
  "conforming (array_sort :: (AttendanceRecord \<Rightarrow> AttendanceRecord \<Rightarrow> int option) \<Rightarrow> _)
   \<and> ''2024-01-01'' \<noteq> []
   \<and> filteredRecords array_sort scenario_getTime [scenario_record, scenario_later, scenario_record] ''2024-01-01''
       = [scenario_record, scenario_record]
   \<and> filteredRecords array_sort scenario_getTime [scenario_record, scenario_later, scenario_record] []
       = [scenario_later, scenario_record, scenario_record]"
  using C4_recap_filter [OF array_sort_conforming, of "''2024-01-01''" scenario_getTime
      "[scenario_record, scenario_later, scenario_record]"] array_sort_conforming
  by (simp add: filteredRecords_def scenario_record_def scenario_later_def scenario_getTime_def
      compareDates_def SortCompare_def)

subsection \<open>Auxiliary facts about JSON text\<close>

lemma digit_char_is_digit: "d < 10 \<Longrightarrow> is_digit (digit_char d)"
proof -
  assume "d < 10"
  then have "d = 0 \<or> d = 1 \<or> d = 2 \<or> d = 3 \<or> d = 4 \<or> d = 5 \<or> d = 6 \<or> d = 7 \<or> d = 8
      \<or> d = 9" by arith
  then show ?thesis by (auto simp: is_digit_def digit_char_def)
qed

lemma digit_value_digit_char: "d < 10 \<Longrightarrow> digit_value (digit_char d) = d"
proof -
  assume "d < 10"
  then have "d = 0 \<or> d = 1 \<or> d = 2 \<or> d = 3 \<or> d = 4 \<or> d = 5 \<or> d = 6 \<or> d = 7 \<or> d = 8
      \<or> d = 9" by arith
  then show ?thesis by (auto simp: digit_value_def digit_char_def)
qed

lemma digits_value_Nil: "digits_value [] = 0"
  by (simp add: digits_value_def)

lemma show_nat_digits: "\<forall>c\<in>set (show_nat n). is_digit c"
proof (induction n rule: show_nat.induct)
  case (1 n)
  show ?case
  proof (cases "n < 10")
    case True
    then show ?thesis by (simp add: show_nat.simps [of n] digit_char_is_digit)
  next
    case False
    then show ?thesis using 1 by (simp add: show_nat.simps [of n] digit_char_is_digit)
  qed
qed

lemma show_nat_nonempty: "show_nat n \<noteq> []"
  by (simp add: show_nat.simps [of n])

lemma digits_value_show_nat: "digits_value (show_nat n) = n"
proof (induction n rule: show_nat.induct)
  case (1 n)
  show ?case
  proof (cases "n < 10")
    case True
    then show ?thesis
      by (simp add: show_nat.simps [of n] digits_value_def digit_value_digit_char)
  next
    case False
    then have "digits_value (show_nat (n div 10)) = n div 10" using 1 by simp
    then show ?thesis using False
      by (simp add: show_nat.simps [of n] digits_value_snoc digit_value_digit_char)
  qed
qed

lemma show_nat_no_leading_zero: "1 < length (show_nat n) \<Longrightarrow> hd (show_nat n) \<noteq> CHR ''0''"
proof (induction n rule: show_nat.induct)
  case (1 n)
  show ?case
  proof (cases "n < 10")
    case True
    then show ?thesis using 1(2) by (simp add: show_nat.simps [of n])
  next
    case False
    then have s: "show_nat n = show_nat (n div 10) @ [digit_char (n mod 10)]"
      by (simp add: show_nat.simps [of n])
    show ?thesis
    proof (cases "n div 10 < 10")
      case True
      then have "show_nat (n div 10) = [digit_char (n div 10)]" by (simp add: show_nat.simps [of "n div 10"])
      moreover have "0 < n div 10" using False by simp
      ultimately have "hd (show_nat n) = digit_char (n div 10)" "n div 10 \<in> {1,2,3,4,5,6,7,8,9}"
        using s True by auto
      then show ?thesis by (auto simp: digit_char_def)
    next
      case F2: False
      then have "1 < length (show_nat (n div 10))"
        by (simp add: show_nat.simps [of "n div 10"] show_nat_nonempty Suc_lessI)
      then have "hd (show_nat (n div 10)) \<noteq> CHR ''0''" using 1(1) False by simp
      then show ?thesis using s show_nat_nonempty [of "n div 10"] by simp
    qed
  qed
qed

lemma number_of_lexeme_show_nat:
  assumes "n \<le> 2 ^ 53"
  shows "number_of_lexeme (show_nat n) = Some (Num (of_nat n))"
proof -
  define lx where "lx = show_nat n"
  have d: "\<forall>c\<in>set lx. is_digit c" by (simp add: lx_def show_nat_digits)
  have ne: "lx \<noteq> []" by (simp add: lx_def show_nat_nonempty)
  have hd: "is_digit (hd lx)" using d ne by simp
  have nneg: "hd lx \<noteq> CHR ''-''" using hd by (auto simp: is_digit_def)
  have tw: "takeWhile is_digit lx = lx" "dropWhile is_digit lx = []" using d by simp_all
  have lz: "\<not> (1 < length lx \<and> hd lx = CHR ''0'')"
    using show_nat_no_leading_zero [of n] by (auto simp: lx_def)
  have v: "digits_value lx = n" by (simp add: lx_def digits_value_show_nat)
  have "number_of_lexeme lx = Some (toNumber (of_nat n))"
    using ne nneg lz v d by (simp add: number_of_lexeme_def Let_def tw digits_value_Nil)
  then show ?thesis using assms by (simp add: lx_def toNumber_nat_exact)
qed



lemma lex_run_spaces:
  "\<forall>c\<in>set ind. c = CHR '' '' \<Longrightarrow> lex_run Between acc (ind @ rest) = lex_run Between acc rest"
  by (induction ind) (simp_all add: begin_token_def)

lemma lex_run_nl: "lex_run Between acc (nl @ rest) = lex_run Between acc rest"
  by (simp add: nl_def begin_token_def)

lemma lex_run_number_chars:
  "\<forall>c\<in>set ds. numchar c \<Longrightarrow>
     lex_run (InNumber lx) acc (ds @ rest) = lex_run (InNumber (lx @ ds)) acc rest"
  by (induction ds arbitrary: lx) simp_all

lemma lex_run_number_end:
  assumes "safe_rest rest" and "number_of_lexeme lx = Some n"
  shows "lex_run (InNumber lx) acc rest = lex_run Between (TNumber n # acc) rest"
proof (cases rest)
  case Nil
  then show ?thesis using assms by (simp add: lex_finish_def)
next
  case (Cons c cs)
  then have "\<not> numchar c" using assms(1) by (simp add: safe_rest_def)
  then show ?thesis using Cons assms(2) by simp
qed

lemma is_digit_numchar: "is_digit c \<Longrightarrow> numchar c"
  by (simp add: numchar_def)

lemma lex_run_show_nat:
  assumes "n \<le> 2 ^ 53" and "safe_rest rest"
  shows "lex_run Between acc (show_nat n @ rest) = lex_run Between (TNumber (Num (of_nat n)) # acc) rest"
proof -
  obtain d ds where s: "show_nat n = d # ds"
    using show_nat_nonempty [of n] by (cases "show_nat n") auto
  have dd: "is_digit d" "\<forall>c\<in>set ds. numchar c"
    using show_nat_digits [of n] s by (auto simp: is_digit_numchar)
  have "lex_run Between acc (show_nat n @ rest) = lex_run (InNumber [d]) acc (ds @ rest)"
    using dd(1) by (auto simp: s begin_token_def is_digit_def)
  also have "\<dots> = lex_run (InNumber (show_nat n)) acc rest"
    using dd(2) by (simp add: lex_run_number_chars s)
  also have "\<dots> = lex_run Between (TNumber (Num (of_nat n)) # acc) rest"
    using assms by (intro lex_run_number_end number_of_lexeme_show_nat)
  finally show ?thesis .
qed

lemma assemble_simple:
  "\<forall>p\<in>set ps. simple_piece p \<Longrightarrow> assemble ps = map piece_byte ps"
  by (induction ps rule: assemble.induct) (simp_all add: utf8_encode_def)

lemma hex_value_hex_char: "d < 16 \<Longrightarrow> hex_value (hex_char d) = Some d"
proof -
  assume "d < 16"
  then have "d = 0 \<or> d = 1 \<or> d = 2 \<or> d = 3 \<or> d = 4 \<or> d = 5 \<or> d = 6 \<or> d = 7 \<or> d = 8
      \<or> d = 9 \<or> d = 10 \<or> d = 11 \<or> d = 12 \<or> d = 13 \<or> d = 14 \<or> d = 15" by arith
  then show ?thesis by (auto simp: hex_value_def hex_char_def)
qed

lemma lex_run_quote_char:
  assumes "\<forall>p\<in>set ps. simple_piece p"
  shows "\<exists>p. simple_piece p \<and> piece_byte p = c
     \<and> lex_run (InString ps) acc (quote_char c @ rest) = lex_run (InString (p # ps)) acc rest"
proof -
  consider (named) "c \<in> {CHR 0x08, CHR 0x09, CHR 0x0A, CHR 0x0C, CHR 0x0D, CHR 0x22, CHR 0x5C}"
    | (control) "c \<notin> {CHR 0x08, CHR 0x09, CHR 0x0A, CHR 0x0C, CHR 0x0D, CHR 0x22, CHR 0x5C}"
        "(of_char c :: nat) < 32"
    | (raw) "c \<notin> {CHR 0x08, CHR 0x09, CHR 0x0A, CHR 0x0C, CHR 0x0D, CHR 0x22, CHR 0x5C}"
        "\<not> (of_char c :: nat) < 32"
    by blast
  then show ?thesis
  proof cases
    case named
    then have "simple_piece (Raw c) \<and> piece_byte (Raw c) = c
       \<and> lex_run (InString ps) acc (quote_char c @ rest) = lex_run (InString (Raw c # ps)) acc rest"
      by (auto simp: quote_char_def unescape_def)
    then show ?thesis by blast
  next
    case control
    define k where "k = (of_char c :: nat)"
    have k: "k < 32" using control by (simp add: k_def)
    then have h: "k div 16 < 16" "k mod 16 < 16" by simp_all
    have q: "quote_char c = [CHR 0x5C, CHR ''u'', CHR ''0'', CHR ''0'', hex_char (k div 16), hex_char (k mod 16)]"
      using control by (simp add: quote_char_def k_def)
    have z: "hex_value CHR ''0'' = Some 0" by (simp add: hex_value_def)
    have "lex_run (InString ps) acc (quote_char c @ rest)
        = lex_run (InString (Unit (16 * (k div 16) + k mod 16) # ps)) acc rest"
      by (simp add: q z hex_value_hex_char [OF h(1)] hex_value_hex_char [OF h(2)])
    moreover have "16 * (k div 16) + k mod 16 = k" by simp
    moreover have "char_of k = c" by (simp add: k_def)
    ultimately have "simple_piece (Unit k) \<and> piece_byte (Unit k) = c
       \<and> lex_run (InString ps) acc (quote_char c @ rest) = lex_run (InString (Unit k # ps)) acc rest"
      using k by simp
    then show ?thesis by blast
  next
    case raw
    then have "simple_piece (Raw c) \<and> piece_byte (Raw c) = c
       \<and> lex_run (InString ps) acc (quote_char c @ rest) = lex_run (InString (Raw c # ps)) acc rest"
      by (simp add: quote_char_def)
    then show ?thesis by blast
  qed
qed

lemma lex_run_quoted_chars:
  assumes "\<forall>p\<in>set ps. simple_piece p"
  shows "lex_run (InString ps) acc (concat (map quote_char s) @ CHR 0x22 # rest)
       = lex_run Between (TString (map piece_byte (rev ps) @ s) # acc) rest"
  using assms
proof (induction s arbitrary: ps)
  case Nil
  then show ?case by (simp add: assemble_simple)
next
  case (Cons c s)
  obtain p where p: "simple_piece p" "piece_byte p = c"
    "lex_run (InString ps) acc (quote_char c @ (concat (map quote_char s) @ CHR 0x22 # rest))
       = lex_run (InString (p # ps)) acc (concat (map quote_char s) @ CHR 0x22 # rest)"
    using lex_run_quote_char [OF Cons.prems] by blast
  have "lex_run (InString (p # ps)) acc (concat (map quote_char s) @ CHR 0x22 # rest)
      = lex_run Between (TString (map piece_byte (rev (p # ps)) @ s) # acc) rest"
    using Cons.prems p(1) by (intro Cons.IH) simp
  then show ?case using p by simp
qed

lemma lex_run_QuoteJSONString:
  "lex_run Between acc (QuoteJSONString s @ rest) = lex_run Between (TString s # acc) rest"
proof -
  have "lex_run Between acc (QuoteJSONString s @ rest)
      = lex_run (InString []) acc (concat (map quote_char s) @ CHR 0x22 # rest)"
    by (simp add: QuoteJSONString_def begin_token_def)
  then show ?thesis by (simp add: lex_run_quoted_chars)
qed

lemma spaces_more: "spaces ind \<Longrightarrow> spaces (ind @ ''  '')"
  by (simp add: spaces_def)

lemma lex_run_ind: "spaces ind \<Longrightarrow> lex_run Between acc (ind @ rest) = lex_run Between acc rest"
  by (simp add: spaces_def lex_run_spaces)

lemma begin_token_simps:
  "begin_token CHR '' '' acc = Some (Between, acc)"
  "begin_token CHR 0x0A acc = Some (Between, acc)"
  "begin_token CHR ''{'' acc = Some (Between, TLBrace # acc)"
  "begin_token CHR ''}'' acc = Some (Between, TRBrace # acc)"
  "begin_token CHR ''['' acc = Some (Between, TLBracket # acc)"
  "begin_token CHR '']'' acc = Some (Between, TRBracket # acc)"
  "begin_token CHR '':'' acc = Some (Between, TColon # acc)"
  "begin_token CHR '','' acc = Some (Between, TComma # acc)"
  "begin_token CHR ''t'' acc = Some (InWord TTrue ''rue'', acc)"
  "begin_token CHR ''f'' acc = Some (InWord TFalse ''alse'', acc)"
  "begin_token CHR ''n'' acc = Some (InWord TNull ''ull'', acc)"
  by (simp_all add: begin_token_def is_digit_def)

lemma safe_rest_simps:
  "safe_rest (nl @ r)" "safe_rest (CHR '','' # r)" "safe_rest []"
  by (simp_all add: safe_rest_def nl_def numchar_def is_digit_def)

lemma plain_number:
  assumes "plain (JNumber n)"
  obtains k :: nat where "n = Num (of_nat k)" "k \<le> 2 ^ 53" "Number_toString dtoa (of_nat k) = show_nat k"
proof -
  from assms obtain q where n: "n = Num q" and q: "q = of_int \<lfloor>q\<rfloor>" "0 \<le> q" "q \<le> 2 ^ 53"
    by (cases n) auto
  define k where "k = nat \<lfloor>q\<rfloor>"
  have qk: "q = of_nat k" using q by (simp add: k_def)
  have "(of_nat k :: rat) \<le> of_nat (2 ^ 53)" using q qk by simp
  then have kle: "k \<le> 2 ^ 53" by (simp only: of_nat_le_iff)
  have "Number_toString dtoa (of_nat k) = show_nat k"
    using q qk by (simp add: Number_toString_def)
  then show ?thesis using that n qk kle by blast
qed

lemma lex_serialize:
  "plain v \<Longrightarrow> spaces ind \<Longrightarrow> safe_rest rest \<Longrightarrow>
     lex_run Between acc (serialize dtoa ind v @ rest) = lex_run Between (rev (tokens_of v) @ acc) rest"
  "plain_elements xs \<Longrightarrow> spaces ind \<Longrightarrow> safe_rest rest \<Longrightarrow>
     lex_run Between acc (serialize_elements dtoa ind xs @ rest)
       = lex_run Between (rev (tokens_of_elements xs) @ acc) rest"
  "plain_members ps \<Longrightarrow> spaces ind \<Longrightarrow> safe_rest rest \<Longrightarrow>
     lex_run Between acc (serialize_members dtoa ind ps @ rest)
       = lex_run Between (rev (tokens_of_members ps) @ acc) rest"
proof (induction v and xs and ps arbitrary: ind acc rest and ind acc rest and ind acc rest
    rule: plain_plain_elements_plain_members.induct)
  case 1
  show ?case by (simp add: begin_token_simps)
next
  case (2 b)
  show ?case by (simp add: begin_token_simps)
next
  case (3 n)
  obtain k :: nat where k: "n = Num (of_nat k)" "k \<le> 2 ^ 53" "Number_toString dtoa (of_nat k) = show_nat k"
    using 3(1) by (rule plain_number)
  show ?case using k 3 by (simp add: lex_run_show_nat)
next
  case (4 s)
  show ?case by (simp add: lex_run_QuoteJSONString)
next
  case (5 xs)
  show ?case
  proof (cases "xs = []")
    case True
    then show ?thesis by (simp add: begin_token_simps)
  next
    case False
    have "lex_run Between acc (serialize dtoa ind (JArray xs) @ rest)
        = lex_run Between (TLBracket # acc)
            (serialize_elements dtoa (ind @ ''  '') xs @ (nl @ ind @ CHR '']'' # rest))"
      using False by (simp add: begin_token_simps)
    also have "\<dots> = lex_run Between (rev (tokens_of_elements xs) @ TLBracket # acc) (nl @ ind @ CHR '']'' # rest)"
      using 5 by (intro "5.IH") (simp_all add: spaces_more safe_rest_simps)
    also have "\<dots> = lex_run Between (rev (tokens_of (JArray xs)) @ acc) rest"
      using 5(3) by (simp add: lex_run_nl lex_run_ind begin_token_simps)
    finally show ?thesis .
  qed
next
  case (6 ps)
  show ?case
  proof (cases "ps = []")
    case True
    then show ?thesis by (simp add: begin_token_simps)
  next
    case False
    have "lex_run Between acc (serialize dtoa ind (JObject ps) @ rest)
        = lex_run Between (TLBrace # acc)
            (serialize_members dtoa (ind @ ''  '') ps @ (nl @ ind @ CHR ''}'' # rest))"
      using False by (simp add: begin_token_simps)
    also have "\<dots> = lex_run Between (rev (tokens_of_members ps) @ TLBrace # acc) (nl @ ind @ CHR ''}'' # rest)"
      using 6 by (intro "6.IH") (simp_all add: spaces_more safe_rest_simps)
    also have "\<dots> = lex_run Between (rev (tokens_of (JObject ps)) @ acc) rest"
      using 6(3) by (simp add: lex_run_nl lex_run_ind begin_token_simps)
    finally show ?thesis .
  qed
next
  case 7
  show ?case by simp
next
  case (8 x xs)
  have px: "plain x" and pxs: "plain_elements xs" using 8(3) by simp_all
  let ?sep = "if xs = [] then [] else '',''"
  have s: "safe_rest (?sep @ serialize_elements dtoa ind xs @ rest)"
  proof (cases xs)
    case Nil
    then show ?thesis using 8(5) by simp
  next
    case (Cons y ys)
    then show ?thesis by (simp add: safe_rest_simps)
  qed
  have "lex_run Between acc (serialize_elements dtoa ind (x # xs) @ rest)
      = lex_run Between acc (serialize dtoa ind x @ (?sep @ serialize_elements dtoa ind xs @ rest))"
    using 8(4) by (simp add: lex_run_nl lex_run_ind)
  also have "\<dots> = lex_run Between (rev (tokens_of x) @ acc) (?sep @ serialize_elements dtoa ind xs @ rest)"
    using px 8(4) s by (rule "8.IH"(1))
  also have "\<dots> = lex_run Between ((if xs = [] then [] else [TComma]) @ rev (tokens_of x) @ acc)
        (serialize_elements dtoa ind xs @ rest)"
    by (simp add: begin_token_simps)
  also have "\<dots> = lex_run Between (rev (tokens_of_elements xs) @ (if xs = [] then [] else [TComma]) @ rev (tokens_of x) @ acc) rest"
    using pxs 8(4,5) by (rule "8.IH"(2))
  finally show ?case by simp
next
  case 9
  show ?case by simp
next
  case (10 p ps)
  have px: "plain (snd p)" and pxs: "plain_members ps" using 10(3) by simp_all
  let ?sep = "if ps = [] then [] else '',''"
  have s: "safe_rest (?sep @ serialize_members dtoa ind ps @ rest)"
  proof (cases ps)
    case Nil
    then show ?thesis using 10(5) by simp
  next
    case (Cons y ys)
    then show ?thesis by (simp add: safe_rest_simps)
  qed
  have "lex_run Between acc (serialize_members dtoa ind (p # ps) @ rest)
      = lex_run Between acc (QuoteJSONString (fst p) @ ('': '' @ serialize dtoa ind (snd p) @ (?sep @ serialize_members dtoa ind ps @ rest)))"
    using 10(4) by (simp add: lex_run_nl lex_run_ind)
  also have "\<dots> = lex_run Between (TColon # TString (fst p) # acc)
        (serialize dtoa ind (snd p) @ (?sep @ serialize_members dtoa ind ps @ rest))"
    by (simp add: lex_run_QuoteJSONString begin_token_simps)
  also have "\<dots> = lex_run Between (rev (tokens_of (snd p)) @ TColon # TString (fst p) # acc)
        (?sep @ serialize_members dtoa ind ps @ rest)"
    using px 10(4) s by (rule "10.IH"(1))
  also have "\<dots> = lex_run Between ((if ps = [] then [] else [TComma]) @ rev (tokens_of (snd p)) @ TColon # TString (fst p) # acc)
        (serialize_members dtoa ind ps @ rest)"
    by (simp add: begin_token_simps)
  also have "\<dots> = lex_run Between (rev (tokens_of_members ps) @ (if ps = [] then [] else [TComma]) @ rev (tokens_of (snd p)) @ TColon # TString (fst p) # acc) rest"
    using pxs 10(4,5) by (rule "10.IH"(2))
  finally show ?case by simp
qed

lemma foldl_set_property:
  "distinct (map fst (qs @ ps)) \<Longrightarrow> foldl set_property qs ps = qs @ ps"
proof (induction ps arbitrary: qs)
  case Nil
  then show ?case by simp
next
  case (Cons p ps)
  then have "fst p \<notin> fst ` set qs" by auto
  then have "set_property qs p = qs @ [p]" by (simp add: set_property_def)
  moreover have "distinct (map fst ((qs @ [p]) @ ps))" using Cons.prems by simp
  ultimately show ?case using Cons.IH [of "qs @ [p]"] by simp
qed

lemma plain_members_keys: "plain_members ps \<Longrightarrow> \<forall>p\<in>set ps. \<not> is_array_index (fst p)"
  by (induction ps) auto

lemma make_object_plain:
  assumes "distinct (map fst ps)" and "plain_members ps"
  shows "make_object ps = ps"
proof -
  have "foldl set_property [] ps = ps" using assms(1) foldl_set_property [of "[]" ps] by simp
  moreover have "filter (\<lambda>p. is_array_index (fst p)) ps = []"
    using plain_members_keys [OF assms(2)] by (simp add: filter_empty_conv)
  moreover have "filter (\<lambda>p. \<not> is_array_index (fst p)) ps = ps"
    using plain_members_keys [OF assms(2)] by (simp add: filter_id_conv)
  ultimately show ?thesis by (simp add: make_object_def)
qed

lemma parse_tokens:
  "plain v \<Longrightarrow> e = EValue \<or> e = EValueOrClose \<Longrightarrow>
     parse_run (Config e fs) (tokens_of v @ ts)
       = (case push_value v fs of None \<Rightarrow> None | Some c \<Rightarrow> parse_run c ts)"
  "plain_elements xs \<Longrightarrow> xs \<noteq> [] \<Longrightarrow> e = EValue \<or> e = EValueOrClose \<Longrightarrow>
     parse_run (Config e (FArray acc # fs)) (tokens_of_elements xs @ TRBracket # ts)
       = (case push_value (JArray (rev acc @ xs)) fs of None \<Rightarrow> None | Some c \<Rightarrow> parse_run c ts)"
  "plain_members ps \<Longrightarrow> ps \<noteq> [] \<Longrightarrow> e' = EKey \<or> e' = EKeyOrClose \<Longrightarrow>
     parse_run (Config e' (FObject macc None # fs)) (tokens_of_members ps @ TRBrace # ts)
       = (case push_value (JObject (make_object (rev macc @ ps))) fs of
            None \<Rightarrow> None | Some c \<Rightarrow> parse_run c ts)"
proof (induction v and xs and ps arbitrary: e fs ts and e fs ts acc and e' fs ts macc
    rule: plain_plain_elements_plain_members.induct)
  case 1
  then show ?case by auto
next
  case (2 b)
  then show ?case by auto
next
  case (3 n)
  then show ?case by auto
next
  case (4 s)
  then show ?case by auto
next
  case (5 xs)
  show ?case
  proof (cases "xs = []")
    case True
    then show ?thesis using 5(3) by auto
  next
    case False
    have "parse_run (Config e fs) (tokens_of (JArray xs) @ ts)
        = parse_run (Config EValueOrClose (FArray [] # fs)) (tokens_of_elements xs @ TRBracket # ts)"
      using 5(3) by auto
    also have "\<dots> = (case push_value (JArray (rev [] @ xs)) fs of None \<Rightarrow> None | Some c \<Rightarrow> parse_run c ts)"
      using 5(2) False by (intro "5.IH") simp_all
    finally show ?thesis by simp
  qed
next
  case (6 ps)
  show ?case
  proof (cases "ps = []")
    case True
    then show ?thesis using 6(3) by auto
  next
    case False
    have "parse_run (Config e fs) (tokens_of (JObject ps) @ ts)
        = parse_run (Config EKeyOrClose (FObject [] None # fs)) (tokens_of_members ps @ TRBrace # ts)"
      using 6(3) by auto
    also have "\<dots> = (case push_value (JObject (make_object (rev [] @ ps))) fs of
          None \<Rightarrow> None | Some c \<Rightarrow> parse_run c ts)"
      using 6(2) False by (intro "6.IH") simp_all
    finally show ?thesis using 6(2) by (simp add: make_object_plain)
  qed
next
  case 7
  then show ?case by simp
next
  case (8 x xs)
  have px: "plain x" and pxs: "plain_elements xs" using 8(3) by simp_all
  let ?sep = "if xs = [] then [] else [TComma]"
  have "parse_run (Config e (FArray acc # fs)) (tokens_of_elements (x # xs) @ TRBracket # ts)
      = parse_run (Config e (FArray acc # fs))
          (tokens_of x @ (?sep @ tokens_of_elements xs @ TRBracket # ts))"
    by simp
  also have "\<dots> = parse_run (Config ECommaOrClose (FArray (x # acc) # fs))
          (?sep @ tokens_of_elements xs @ TRBracket # ts)"
    using "8.IH"(1) [OF px 8(5)] by simp
  also have "\<dots> = (case push_value (JArray (rev acc @ x # xs)) fs of
        None \<Rightarrow> None | Some c \<Rightarrow> parse_run c ts)"
  proof (cases "xs = []")
    case True
    then show ?thesis by simp
  next
    case False
    have "parse_run (Config ECommaOrClose (FArray (x # acc) # fs))
          (?sep @ tokens_of_elements xs @ TRBracket # ts)
        = parse_run (Config EValue (FArray (x # acc) # fs)) (tokens_of_elements xs @ TRBracket # ts)"
      using False by simp
    also have "\<dots> = (case push_value (JArray (rev (x # acc) @ xs)) fs of
        None \<Rightarrow> None | Some c \<Rightarrow> parse_run c ts)"
      using pxs False by (intro "8.IH"(2)) simp_all
    finally show ?thesis by simp
  qed
  finally show ?case .
next
  case 9
  then show ?case by simp
next
  case (10 p ps)
  have px: "plain (snd p)" and pxs: "plain_members ps" using 10(3) by simp_all
  let ?sep = "if ps = [] then [] else [TComma]"
  have "parse_run (Config e' (FObject macc None # fs)) (tokens_of_members (p # ps) @ TRBrace # ts)
      = parse_run (Config EValue (FObject macc (Some (fst p)) # fs))
          (tokens_of (snd p) @ (?sep @ tokens_of_members ps @ TRBrace # ts))"
    using 10(5) by auto
  also have "\<dots> = parse_run (Config ECommaOrClose (FObject ((fst p, snd p) # macc) None # fs))
          (?sep @ tokens_of_members ps @ TRBrace # ts)"
    using "10.IH"(1) [OF px, of EValue] by simp
  also have "\<dots> = (case push_value (JObject (make_object (rev macc @ p # ps))) fs of
        None \<Rightarrow> None | Some c \<Rightarrow> parse_run c ts)"
  proof (cases "ps = []")
    case True
    then show ?thesis by simp
  next
    case False
    have "parse_run (Config ECommaOrClose (FObject ((fst p, snd p) # macc) None # fs))
          (?sep @ tokens_of_members ps @ TRBrace # ts)
        = parse_run (Config EKey (FObject ((fst p, snd p) # macc) None # fs))
            (tokens_of_members ps @ TRBrace # ts)"
      using False by simp
    also have "\<dots> = (case push_value (JObject (make_object (rev ((fst p, snd p) # macc) @ ps))) fs of
        None \<Rightarrow> None | Some c \<Rightarrow> parse_run c ts)"
      using pxs False by (intro "10.IH"(2)) simp_all
    finally show ?thesis by simp
  qed
  finally show ?case .
qed

lemma JSON_roundtrip:
  assumes "plain v"
  shows "JSON_parse (JSON_stringify dtoa v) = Some v"
proof -
  have "lex_run Between [] (serialize dtoa [] v @ []) = lex_run Between (rev (tokens_of v) @ []) []"
    using assms by (intro lex_serialize(1)) (simp_all add: spaces_def safe_rest_def)
  then have l: "lex_run Between [] (serialize dtoa [] v) = Some (tokens_of v)"
    by (simp add: lex_finish_def)
  have "parse_run (Config EValue []) (tokens_of v @ []) = (case push_value v [] of None \<Rightarrow> None | Some c \<Rightarrow> parse_run c [])"
    using assms by (intro parse_tokens(1)) simp_all
  then have "parse_run (Config EValue []) (tokens_of v) = Some v" by simp
  then show ?thesis using l by (simp add: JSON_parse_def JSON_stringify_def)
qed

lemma plain_record: "well_formed r \<Longrightarrow> plain (json_of_record r)"
proof -
  assume "well_formed r"
  then have n: "plain (JNumber (collection r))" by (simp add: well_formed_def)
  have o: "plain_elements (map json_of_officer xs)" for xs
    by (induction xs) (simp_all add: json_of_officer_def json_of_status_def is_array_index_def is_digit_def)
  show ?thesis
    using n o by (simp add: json_of_record_def is_array_index_def is_digit_def del: plain.simps(3))
qed

lemma plain_records: "\<forall>r\<in>set rs. well_formed r \<Longrightarrow> plain_elements (map json_of_record rs)"
  by (induction rs) (simp_all add: plain_record)

subsection \<open>C5: export followed by import is the identity\<close>

text \<open>
  C5. For every well-formed list of attendance records: when the collection is
  replaced by the list, exported with \<open>handleDownload\<close> and the exported text is
  imported with \<open>handleUpload\<close> (into whatever the collection holds by then), the
  import succeeds and the collection is again the list, value for value. This holds
  whatever the engine prints for numbers that are not integers up to \<open>2^53\<close>; a
  well-formed list has none.
\<close>

theorem C5_export_import_roundtrip:
  assumes "\<forall>r\<in>set rs. well_formed r"
  shows "handleUpload JSON_parse
           (Some (handleDownload dtoa (handleSetRecords (map json_of_record rs) before))) later
         = (Some ''Data berhasil diimpor!'', map json_of_record rs)"
proof -
  have "plain (JArray (map json_of_record rs))" using assms by (simp add: plain_records)
  then have "JSON_parse (JSON_stringify dtoa (JArray (map json_of_record rs)))
      = Some (JArray (map json_of_record rs))"
    by (rule JSON_roundtrip)
  then show ?thesis by (simp add: handleUpload_def handleDownload_def handleSetRecords_def)
qed

theorem C5_export_import_roundtrip_witness:
  "well_formed scenario_record \<and> well_formed scenario_later
   \<and> handleUpload JSON_parse
        (Some (handleDownload (\<lambda>q. []) (handleSetRecords (map json_of_record [scenario_record, scenario_later]) [])))
        [JNull]
      = (Some ''Data berhasil diimpor!'', map json_of_record [scenario_record, scenario_later])"
proof -
  have w: "\<forall>r\<in>set [scenario_record, scenario_later]. well_formed r"
    by (simp add: well_formed_def scenario_record_def scenario_later_def)
  show ?thesis
    using C5_export_import_roundtrip [OF w, of "\<lambda>q. []" "[]" "[JNull]"] w by simp
qed

subsection \<open>C6: a malformed import changes nothing\<close>

text \<open>
  C6. For every import input: if the text is not valid JSON (\<open>JSON.parse\<close> throws),
  or it parses to a value that is not an array, the import ends in one of the two
  error alerts and the record collection is the one it was before. This holds whatever
  function \<open>parse\<close> is.
\<close>

theorem C6_malformed_import:
  assumes "parse text = None \<or> (\<forall>xs. parse text \<noteq> Some (JArray xs))"
  shows "snd (handleUpload parse (Some text) records) = records
       \<and> fst (handleUpload parse (Some text) records)
           \<in> {Some ''Gagal membaca file JSON. Pastikan formatnya benar.'',
               Some ''Format file JSON tidak valid.''}"
proof (cases "parse text")
  case None
  then show ?thesis by (simp add: handleUpload_def)
next
  case (Some v)
  then have "\<forall>xs. v \<noteq> JArray xs" using assms by simp
  then show ?thesis using Some by (cases v) (simp_all add: handleUpload_def)
qed

theorem C6_malformed_import_witness:
  "((\<lambda>s. None) ''[1,'' = (None :: json option) \<or> (\<forall>xs. (\<lambda>s. None) ''[1,'' \<noteq> Some (JArray xs)))
   \<and> snd (handleUpload (\<lambda>s. None) (Some ''[1,'') [JNull, JBool True]) = [JNull, JBool True]
   \<and> fst (handleUpload (\<lambda>s. None) (Some ''[1,'') [JNull, JBool True])
       = Some ''Gagal membaca file JSON. Pastikan formatnya benar.''"
proof -
  have h: "(\<lambda>s. None) ''[1,'' = (None :: json option) \<or> (\<forall>xs. (\<lambda>s. None) ''[1,'' \<noteq> Some (JArray xs))"
    by simp
  show ?thesis
    using C6_malformed_import [of "\<lambda>s. None" "''[1,''" "[JNull, JBool True]", OF h]
    by (simp add: handleUpload_def)
qed

subsection \<open>Auxiliary facts about loading from the remote store\<close>

lemma getFile_absent:
  "http_get E w settings path = (GetNotFound, w1) \<Longrightarrow> getFile E settings path w = (Inr None, w1)"
  by (simp add: getFile_def)

lemma getOrCreate_absent:
  assumes "http_get E w settings path = (GetNotFound, w1)"
    and "encode_json E dflt = Some body"
    and "http_put E w1 settings path body None = (PutOk newSha, w2)"
  shows "getOrCreate E settings path dflt w = (Inr (dflt, None), w2)"
  using assms by (simp add: getOrCreate_def getFile_def updateFile_def)

lemma getOrCreate_refused:
  assumes "http_get E w settings path = (GetNotFound, w1)"
    and "encode_json E dflt = Some body"
    and "http_put E w1 settings path body None = (PutRefused statusText, w2)"
  shows "getOrCreate E settings path dflt w
       = (Inl (Error (''Gagal menyimpan file '' @ path @ '': '' @ statusText)), w2)"
  using assms by (simp add: getOrCreate_def getFile_def updateFile_def)

lemma load_schedule_kept:
  assumes "token settings \<noteq> []"
    and "getOrCreate E settings ''schedule.json'' (json_of_schedule DEFAULT_JADWAL_RONDA) w = (Inr sd, w1)"
  shows "app_schedule (fst (loadDataFromGithub E settings (st, w))) = fst sd
       \<and> scheduleSha (fst (loadDataFromGithub E settings (st, w))) = snd sd"
  using assms
  by (cases "getOrCreate E settings ''data.json'' (JArray []) w1")
    (auto simp: loadDataFromGithub_def load_failed_def Let_def split: sum.splits)

lemma load_records:
  assumes "token settings \<noteq> []"
    and "getOrCreate E settings ''schedule.json'' (json_of_schedule DEFAULT_JADWAL_RONDA) w = (Inr sd, w1)"
    and "getOrCreate E settings ''data.json'' (JArray []) w1 = (Inr rd, w2)"
  shows "loadDataFromGithub E settings (st, w)
       = (st\<lparr>app_schedule := fst sd, scheduleSha := snd sd, app_records := fst rd,
              recordsSha := snd rd, isInitialized := True\<rparr>, w2)"
  using assms by (simp add: loadDataFromGithub_def Let_def)

lemma load_records_failed:
  assumes "token settings \<noteq> []"
    and "getOrCreate E settings ''schedule.json'' (json_of_schedule DEFAULT_JADWAL_RONDA) w = (Inr sd, w1)"
    and "getOrCreate E settings ''data.json'' (JArray []) w1 = (Inl e, w2)"
  shows "loadDataFromGithub E settings (st, w)
       = (load_failed e (st\<lparr>app_schedule := fst sd, scheduleSha := snd sd\<rparr>), w2)"
  using assms by (simp add: loadDataFromGithub_def Let_def)

lemma load_schedule_failed:
  assumes "token settings \<noteq> []"
    and "getOrCreate E settings ''schedule.json'' (json_of_schedule DEFAULT_JADWAL_RONDA) w = (Inl e, w1)"
  shows "loadDataFromGithub E settings (st, w) = (load_failed e st, w1)"
  using assms by (simp add: loadDataFromGithub_def)

lemma scenario_remote_parse:
  "JSON_parse scenario_remote_text
     = Some (JArray [json_of_record scenario_record, json_of_record scenario_later])"
proof -
  have "\<forall>r\<in>set [scenario_record, scenario_later]. well_formed r"
    by (simp add: well_formed_def scenario_record_def scenario_later_def)
  then have "plain (JArray (map json_of_record [scenario_record, scenario_later]))"
    by (simp only: plain.simps plain_records)
  then have "JSON_parse (JSON_stringify (\<lambda>q. []) (JArray (map json_of_record [scenario_record, scenario_later])))
      = Some (JArray (map json_of_record [scenario_record, scenario_later]))"
    by (rule JSON_roundtrip)
  then show ?thesis by (simp add: scenario_remote_text_def)
qed

subsection \<open>C7: loading a document that does not exist\<close>

text \<open>
  C7, as stated, fails: for a path without document \<open>getFile\<close> returns \<open>null\<close>, not a
  payload, and \<open>loadDataFromGithub\<close> then writes the default payload to the store
  before it uses it. When that write is refused (here: an access token that may only
  read) the load ends in its \<open>catch\<close> block: the error is alerted, the settings are
  cleared, and the roster in memory is the one from before, not the built-in one.
\<close>

theorem C7_counterexample:
  "fst (store_get (empty_store False) scenario_settings ''schedule.json'') = GetNotFound
   \<and> fst (getFile store_env scenario_settings ''schedule.json'' (empty_store False)) = Inr None
   \<and> alerts (fst (loadDataFromGithub store_env scenario_settings (scenario_app, empty_store False)))
       = [LoadFailed (Error ''Gagal menyimpan file schedule.json: Forbidden'')]
   \<and> app_schedule (fst (loadDataFromGithub store_env scenario_settings (scenario_app, empty_store False)))
       = json_of_schedule scenario_schedule
   \<and> json_of_schedule scenario_schedule \<noteq> json_of_schedule DEFAULT_JADWAL_RONDA
   \<and> githubSettings (fst (loadDataFromGithub store_env scenario_settings (scenario_app, empty_store False)))
       = None"
proof -
  have g: "getOrCreate store_env scenario_settings ''schedule.json'' dflt (empty_store False)
      = (Inl (Error ''Gagal menyimpan file schedule.json: Forbidden''),
         (empty_store False)\<lparr>answers_left := 6\<rparr>)" for dflt
    by (simp add: getOrCreate_def getFile_def updateFile_def store_env_def store_get_def
        store_put_def empty_store_def)
  have t: "token scenario_settings \<noteq> []" by (simp add: scenario_settings_def)
  have l: "loadDataFromGithub store_env scenario_settings (scenario_app, empty_store False)
      = (load_failed (Error ''Gagal menyimpan file schedule.json: Forbidden'') scenario_app,
         (empty_store False)\<lparr>answers_left := 6\<rparr>)"
    using load_schedule_failed [OF t g] by simp
  have n: "json_of_schedule scenario_schedule \<noteq> json_of_schedule DEFAULT_JADWAL_RONDA"
    by (simp add: json_of_schedule_def scenario_schedule_def DEFAULT_JADWAL_RONDA_def
        JADWAL_RONDA_def upt_rec)
  show ?thesis
    unfolding l
    using n
    by (simp add: load_failed_def scenario_app_def store_get_def empty_store_def getFile_def
        store_env_def)
qed

text \<open>
  C7, amended. For every remote path whose document does not exist, \<open>getFile\<close> returns
  \<open>null\<close> and throws nothing. \<open>loadDataFromGithub\<close> then writes the default payload of
  the path's kind to the store, and when the store accepts that write it goes on with
  the default payload and no version token: the built-in roster for
  \<open>schedule.json\<close>, the empty record list for \<open>data.json\<close> (with the load completed
  and no error alerted).
\<close>

theorem C7_load_absent:
  assumes "token settings \<noteq> []"
  shows
    "(http_get E w settings path = (GetNotFound, w1) \<longrightarrow> getFile E settings path w = (Inr None, w1))
     \<and> (http_get E w settings ''schedule.json'' = (GetNotFound, w1)
        \<and> encode_json E (json_of_schedule DEFAULT_JADWAL_RONDA) = Some body
        \<and> http_put E w1 settings ''schedule.json'' body None = (PutOk newSha, w2)
        \<longrightarrow> app_schedule (fst (loadDataFromGithub E settings (st, w))) = json_of_schedule DEFAULT_JADWAL_RONDA
          \<and> scheduleSha (fst (loadDataFromGithub E settings (st, w))) = None)
     \<and> (getOrCreate E settings ''schedule.json'' (json_of_schedule DEFAULT_JADWAL_RONDA) w = (Inr sd, v1)
        \<and> http_get E v1 settings ''data.json'' = (GetNotFound, v2)
        \<and> encode_json E (JArray []) = Some body'
        \<and> http_put E v2 settings ''data.json'' body' None = (PutOk newSha', v3)
        \<longrightarrow> loadDataFromGithub E settings (st, w)
            = (st\<lparr>app_schedule := fst sd, scheduleSha := snd sd, app_records := JArray [],
                   recordsSha := None, isInitialized := True\<rparr>, v3))"
proof -
  have a: "http_get E w settings path = (GetNotFound, w1) \<longrightarrow> getFile E settings path w = (Inr None, w1)"
    by (simp add: getFile_absent)
  have b: "http_get E w settings ''schedule.json'' = (GetNotFound, w1)
        \<and> encode_json E (json_of_schedule DEFAULT_JADWAL_RONDA) = Some body
        \<and> http_put E w1 settings ''schedule.json'' body None = (PutOk newSha, w2)
        \<longrightarrow> app_schedule (fst (loadDataFromGithub E settings (st, w))) = json_of_schedule DEFAULT_JADWAL_RONDA
          \<and> scheduleSha (fst (loadDataFromGithub E settings (st, w))) = None"
  proof
    assume h: "http_get E w settings ''schedule.json'' = (GetNotFound, w1)
        \<and> encode_json E (json_of_schedule DEFAULT_JADWAL_RONDA) = Some body
        \<and> http_put E w1 settings ''schedule.json'' body None = (PutOk newSha, w2)"
    then have "getOrCreate E settings ''schedule.json'' (json_of_schedule DEFAULT_JADWAL_RONDA) w
        = (Inr (json_of_schedule DEFAULT_JADWAL_RONDA, None), w2)"
      using getOrCreate_absent [of E w settings "''schedule.json''" w1 _ body newSha w2] by simp
    from load_schedule_kept [OF assms this, of st]
    show "app_schedule (fst (loadDataFromGithub E settings (st, w))) = json_of_schedule DEFAULT_JADWAL_RONDA
          \<and> scheduleSha (fst (loadDataFromGithub E settings (st, w))) = None"
      by simp
  qed
  have c: "getOrCreate E settings ''schedule.json'' (json_of_schedule DEFAULT_JADWAL_RONDA) w = (Inr sd, v1)
        \<and> http_get E v1 settings ''data.json'' = (GetNotFound, v2)
        \<and> encode_json E (JArray []) = Some body'
        \<and> http_put E v2 settings ''data.json'' body' None = (PutOk newSha', v3)
        \<longrightarrow> loadDataFromGithub E settings (st, w)
            = (st\<lparr>app_schedule := fst sd, scheduleSha := snd sd, app_records := JArray [],
                   recordsSha := None, isInitialized := True\<rparr>, v3)"
  proof
    assume h: "getOrCreate E settings ''schedule.json'' (json_of_schedule DEFAULT_JADWAL_RONDA) w = (Inr sd, v1)
        \<and> http_get E v1 settings ''data.json'' = (GetNotFound, v2)
        \<and> encode_json E (JArray []) = Some body'
        \<and> http_put E v2 settings ''data.json'' body' None = (PutOk newSha', v3)"
    then have "getOrCreate E settings ''data.json'' (JArray []) v1 = (Inr (JArray [], None), v3)"
      using getOrCreate_absent [of E v1 settings "''data.json''" v2 _ body' newSha' v3] by simp
    with h load_records [OF assms, of E w sd v1 "(JArray [], None)" v3 st]
    show "loadDataFromGithub E settings (st, w)
            = (st\<lparr>app_schedule := fst sd, scheduleSha := snd sd, app_records := JArray [],
                   recordsSha := None, isInitialized := True\<rparr>, v3)"
      by simp
  qed
  from a b c show ?thesis by blast
qed

theorem C7_load_absent_witness:
  "token scenario_settings \<noteq> []
   \<and> fst (store_get (empty_store True) scenario_settings ''schedule.json'') = GetNotFound
   \<and> getFile store_env scenario_settings ''data.json'' (empty_store True)
       = (Inr None, (empty_store True)\<lparr>answers_left := 7\<rparr>)
   \<and> fst (loadDataFromGithub store_env scenario_settings (scenario_app, empty_store True))
       = scenario_app\<lparr>app_schedule := json_of_schedule DEFAULT_JADWAL_RONDA, scheduleSha := None,
           app_records := JArray [], recordsSha := None, isInitialized := True\<rparr>"
proof -
  define body1 where "body1 = JSON_stringify (\<lambda>q. []) (json_of_schedule DEFAULT_JADWAL_RONDA)"
  define body2 where "body2 = JSON_stringify (\<lambda>q. []) (JArray [])"
  define w1 where "w1 = (empty_store True)\<lparr>answers_left := 7\<rparr>"
  define w2 where "w2 = \<lparr>files = [''schedule.json'' \<mapsto> (body1, ''blob '' @ body1)], writable = True,
     answers_left = 6\<rparr>"
  define w3 where "w3 = w2\<lparr>answers_left := 5\<rparr>"
  define w4 where "w4 = \<lparr>files = [''schedule.json'' \<mapsto> (body1, ''blob '' @ body1),
     ''data.json'' \<mapsto> (body2, ''blob '' @ body2)], writable = True, answers_left = 4\<rparr>"
  have t: "token scenario_settings \<noteq> []" by (simp add: scenario_settings_def)
  have g1: "http_get store_env (empty_store True) scenario_settings ''schedule.json'' = (GetNotFound, w1)"
    by (simp add: store_env_def store_get_def empty_store_def w1_def)
  have g0: "http_get store_env (empty_store True) scenario_settings ''data.json'' = (GetNotFound, w1)"
    by (simp add: store_env_def store_get_def empty_store_def w1_def)
  have e1: "encode_json store_env (json_of_schedule DEFAULT_JADWAL_RONDA) = Some body1"
    by (simp add: store_env_def body1_def)
  have p1: "http_put store_env w1 scenario_settings ''schedule.json'' body1 None
      = (PutOk (Some (''blob '' @ body1)), w2)"
    by (simp add: store_env_def store_put_def empty_store_def w1_def w2_def)
  have c1: "getOrCreate store_env scenario_settings ''schedule.json'' (json_of_schedule DEFAULT_JADWAL_RONDA)
      (empty_store True) = (Inr (json_of_schedule DEFAULT_JADWAL_RONDA, None), w2)"
    using g1 e1 p1 by (rule getOrCreate_absent)
  have g2: "http_get store_env w2 scenario_settings ''data.json'' = (GetNotFound, w3)"
    by (simp add: store_env_def store_get_def w2_def w3_def)
  have e2: "encode_json store_env (JArray []) = Some body2"
    by (simp add: store_env_def body2_def)
  have p2: "http_put store_env w3 scenario_settings ''data.json'' body2 None
      = (PutOk (Some (''blob '' @ body2)), w4)"
    by (simp add: store_env_def store_put_def w2_def w3_def w4_def fun_upd_twist)
  from C7_load_absent [OF t, where E = store_env and w = "empty_store True" and path = "''data.json''"
      and ?w1.0 = w1 and body = body1 and newSha = "Some (''blob '' @ body1)" and ?w2.0 = w2
      and sd = "(json_of_schedule DEFAULT_JADWAL_RONDA, None)" and ?v1.0 = w2 and ?v2.0 = w3
      and body' = body2 and newSha' = "Some (''blob '' @ body2)" and ?v3.0 = w4 and st = scenario_app]
    t g0 g1 e1 p1 c1 g2 e2 p2
  show ?thesis by (simp add: w1_def store_get_def empty_store_def)
qed

subsection \<open>C8: a save that the store refuses\<close>

text \<open>
  C8, as stated, fails: after the refused write the collection in memory is replaced
  only when the reload succeeds. The reload reads \<open>schedule.json\<close> first and
  \<open>data.json\<close> after it; when a request of the reload is refused (here the store
  stops answering after the conflict) \<open>loadDataFromGithub\<close> ends in its \<open>catch\<close>
  block and the collection in memory stays the one from before the save, while the
  store holds other content.
\<close>

theorem C8_counterexample:
  "app_records (fst (addRecord_remote store_env scenario_later (scenario_app, scenario_store 2)))
     = JArray [json_of_record scenario_record]
   \<and> alerts (fst (addRecord_remote store_env scenario_later (scenario_app, scenario_store 2)))
     = [SaveFailed (Error ''Gagal menyimpan file data.json: Conflict''),
        LoadFailed (Error ''Gagal menyimpan file schedule.json: Service Unavailable'')]
   \<and> map_option (\<lambda>d. JSON_parse (fst d))
        (files (snd (addRecord_remote store_env scenario_later (scenario_app, scenario_store 2))) ''data.json'')
     = Some (Some (JArray [json_of_record scenario_record, json_of_record scenario_later]))"
  by (simp add: addRecord_remote_def spread_def updateFile_def loadDataFromGithub_def
      getOrCreate_def getFile_def load_failed_def store_env_def store_put_def store_get_def
      scenario_app_def scenario_store_def scenario_settings_def scenario_remote_parse Let_def)

text \<open>
  C8, amended. For every save of the records document that the store refuses (as it
  does a write whose version token is stale): the record is not added to the
  collection in memory, the failure is alerted, and everything is loaded again. When
  the reload succeeds (the schedule is read or created, and \<open>data.json\<close> is read and
  parses, or is created) the collection in memory is replaced by the content the
  store returned, with its version token; the record appended locally is in it only
  if the store has it. When the reload fails, at \<open>schedule.json\<close> or at \<open>data.json\<close>
  (a read that is refused, a content that does not parse, a creation that is
  refused), the collection in memory stays as it was before the save, the load error
  is alerted too and the settings are cleared; a reload that fails at \<open>data.json\<close>
  has replaced the roster in memory by then.
\<close>

theorem C8_stale_save:
  assumes "githubSettings st = Some settings" and "token settings \<noteq> []"
    and "spread (app_records st) = Some xs"
    and "encode_json E (JArray (xs @ [json_of_record r])) = Some body"
    and "http_put E w settings ''data.json'' body (if recordsSha st = Some [] then None else recordsSha st)
           = (PutRefused statusText, w1)"
  shows
    "(getOrCreate E settings ''schedule.json'' (json_of_schedule DEFAULT_JADWAL_RONDA) w1 = (Inr sd, w2)
        \<and> http_get E w2 settings ''data.json'' = (GetOk decoded sha, w3) \<and> decoded \<noteq> []
        \<and> parse_json E decoded = Some content
      \<longrightarrow> addRecord_remote E r (st, w)
          = (st\<lparr>alerts := alerts st @ [SaveFailed (Error (''Gagal menyimpan file data.json: '' @ statusText))],
                app_schedule := fst sd, scheduleSha := snd sd,
                app_records := content, recordsSha := sha, isInitialized := True\<rparr>, w3))
     \<and> (getOrCreate E settings ''schedule.json'' (json_of_schedule DEFAULT_JADWAL_RONDA) w1 = (Inl e, w2)
      \<longrightarrow> app_records (fst (addRecord_remote E r (st, w))) = app_records st
        \<and> alerts (fst (addRecord_remote E r (st, w)))
            = alerts st @ [SaveFailed (Error (''Gagal menyimpan file data.json: '' @ statusText)), LoadFailed e])
     \<and> (getOrCreate E settings ''schedule.json'' (json_of_schedule DEFAULT_JADWAL_RONDA) w1 = (Inr sd, w2)
        \<and> getOrCreate E settings ''data.json'' (JArray []) w2 = (Inr rd, w3)
      \<longrightarrow> addRecord_remote E r (st, w)
          = (st\<lparr>alerts := alerts st @ [SaveFailed (Error (''Gagal menyimpan file data.json: '' @ statusText))],
                app_schedule := fst sd, scheduleSha := snd sd,
                app_records := fst rd, recordsSha := snd rd, isInitialized := True\<rparr>, w3))
     \<and> (getOrCreate E settings ''schedule.json'' (json_of_schedule DEFAULT_JADWAL_RONDA) w1 = (Inl e, w2)
      \<longrightarrow> addRecord_remote E r (st, w)
          = (load_failed e
               (st\<lparr>alerts := alerts st @ [SaveFailed (Error (''Gagal menyimpan file data.json: '' @ statusText))]\<rparr>),
             w2))
     \<and> (getOrCreate E settings ''schedule.json'' (json_of_schedule DEFAULT_JADWAL_RONDA) w1 = (Inr sd, w2)
        \<and> getOrCreate E settings ''data.json'' (JArray []) w2 = (Inl e, w3)
      \<longrightarrow> addRecord_remote E r (st, w)
          = (load_failed e
               (st\<lparr>alerts := alerts st @ [SaveFailed (Error (''Gagal menyimpan file data.json: '' @ statusText))],
                   app_schedule := fst sd, scheduleSha := snd sd\<rparr>),
             w3)
        \<and> app_records (fst (addRecord_remote E r (st, w))) = app_records st
        \<and> alerts (fst (addRecord_remote E r (st, w)))
            = alerts st @ [SaveFailed (Error (''Gagal menyimpan file data.json: '' @ statusText)), LoadFailed e])
     \<and> (getOrCreate E settings ''schedule.json'' (json_of_schedule DEFAULT_JADWAL_RONDA) w1 = (Inr sd, w2)
        \<and> http_get E w2 settings ''data.json'' = (GetRefused refusal, w3)
      \<longrightarrow> app_records (fst (addRecord_remote E r (st, w))) = app_records st
        \<and> alerts (fst (addRecord_remote E r (st, w)))
            = alerts st @ [SaveFailed (Error (''Gagal menyimpan file data.json: '' @ statusText)),
                           LoadFailed (Error (''Gagal mengambil file data.json: '' @ refusal))])
     \<and> (getOrCreate E settings ''schedule.json'' (json_of_schedule DEFAULT_JADWAL_RONDA) w1 = (Inr sd, w2)
        \<and> http_get E w2 settings ''data.json'' = (GetOk decoded sha, w3) \<and> decoded \<noteq> []
        \<and> parse_json E decoded = None
      \<longrightarrow> app_records (fst (addRecord_remote E r (st, w))) = app_records st
        \<and> alerts (fst (addRecord_remote E r (st, w)))
            = alerts st @ [SaveFailed (Error (''Gagal menyimpan file data.json: '' @ statusText)),
                           LoadFailed SyntaxError])"
proof -
  let ?st' = "st\<lparr>alerts := alerts st @ [SaveFailed (Error (''Gagal menyimpan file data.json: '' @ statusText))]\<rparr>"
  let ?schedule = "getOrCreate E settings ''schedule.json'' (json_of_schedule DEFAULT_JADWAL_RONDA) w1"
  have u: "updateFile E settings ''data.json'' (JArray (xs @ [json_of_record r])) (recordsSha st) w
      = (Inl (Error (''Gagal menyimpan file data.json: '' @ statusText)), w1)"
    using assms(4,5) by (simp add: updateFile_def)
  have a: "addRecord_remote E r (st, w) = loadDataFromGithub E settings (?st', w1)"
    using assms(1,3) u by (simp add: addRecord_remote_def Let_def)
  have 3: "?schedule = (Inr sd, w2) \<and> getOrCreate E settings ''data.json'' (JArray []) w2 = (Inr rd, w3)
      \<longrightarrow> addRecord_remote E r (st, w)
          = (st\<lparr>alerts := alerts st @ [SaveFailed (Error (''Gagal menyimpan file data.json: '' @ statusText))],
                app_schedule := fst sd, scheduleSha := snd sd,
                app_records := fst rd, recordsSha := snd rd, isInitialized := True\<rparr>, w3)"
    for rd w3
    using load_records [OF assms(2), of E w1 sd w2 rd w3 ?st'] by (simp add: a)
  have 1: "?schedule = (Inr sd, w2)
        \<and> http_get E w2 settings ''data.json'' = (GetOk decoded sha, w3) \<and> decoded \<noteq> []
        \<and> parse_json E decoded = Some content
      \<longrightarrow> addRecord_remote E r (st, w)
          = (st\<lparr>alerts := alerts st @ [SaveFailed (Error (''Gagal menyimpan file data.json: '' @ statusText))],
                app_schedule := fst sd, scheduleSha := snd sd,
                app_records := content, recordsSha := sha, isInitialized := True\<rparr>, w3)"
  proof
    assume h: "?schedule = (Inr sd, w2)
        \<and> http_get E w2 settings ''data.json'' = (GetOk decoded sha, w3) \<and> decoded \<noteq> []
        \<and> parse_json E decoded = Some content"
    then have "getOrCreate E settings ''data.json'' (JArray []) w2 = (Inr (content, sha), w3)"
      by (simp add: getOrCreate_def getFile_def)
    with h 3 [of "(content, sha)" w3]
    show "addRecord_remote E r (st, w)
          = (st\<lparr>alerts := alerts st @ [SaveFailed (Error (''Gagal menyimpan file data.json: '' @ statusText))],
                app_schedule := fst sd, scheduleSha := snd sd,
                app_records := content, recordsSha := sha, isInitialized := True\<rparr>, w3)"
      by simp
  qed
  have 4: "?schedule = (Inl e, w2)
      \<longrightarrow> addRecord_remote E r (st, w) = (load_failed e ?st', w2)"
    using load_schedule_failed [OF assms(2), of E w1 e w2 ?st'] by (simp add: a)
  then have 2: "?schedule = (Inl e, w2)
      \<longrightarrow> app_records (fst (addRecord_remote E r (st, w))) = app_records st
        \<and> alerts (fst (addRecord_remote E r (st, w)))
            = alerts st @ [SaveFailed (Error (''Gagal menyimpan file data.json: '' @ statusText)), LoadFailed e]"
    by (simp add: load_failed_def)
  have 5: "?schedule = (Inr sd, w2) \<and> getOrCreate E settings ''data.json'' (JArray []) w2 = (Inl e', w3)
      \<longrightarrow> addRecord_remote E r (st, w)
          = (load_failed e'
               (st\<lparr>alerts := alerts st @ [SaveFailed (Error (''Gagal menyimpan file data.json: '' @ statusText))],
                   app_schedule := fst sd, scheduleSha := snd sd\<rparr>),
             w3)
        \<and> app_records (fst (addRecord_remote E r (st, w))) = app_records st
        \<and> alerts (fst (addRecord_remote E r (st, w)))
            = alerts st @ [SaveFailed (Error (''Gagal menyimpan file data.json: '' @ statusText)), LoadFailed e']"
    for e' w3
    using load_records_failed [OF assms(2), of E w1 sd w2 e' w3 ?st'] by (simp add: a load_failed_def)
  have 6: "?schedule = (Inr sd, w2) \<and> http_get E w2 settings ''data.json'' = (GetRefused refusal, w3)
      \<longrightarrow> app_records (fst (addRecord_remote E r (st, w))) = app_records st
        \<and> alerts (fst (addRecord_remote E r (st, w)))
            = alerts st @ [SaveFailed (Error (''Gagal menyimpan file data.json: '' @ statusText)),
                           LoadFailed (Error (''Gagal mengambil file data.json: '' @ refusal))]"
  proof
    assume h: "?schedule = (Inr sd, w2) \<and> http_get E w2 settings ''data.json'' = (GetRefused refusal, w3)"
    then have g: "getOrCreate E settings ''data.json'' (JArray []) w2
        = (Inl (Error (''Gagal mengambil file data.json: '' @ refusal)), w3)"
      by (simp add: getOrCreate_def getFile_def)
    from h have "?schedule = (Inr sd, w2)" by simp
    with g 5 [of "Error (''Gagal mengambil file data.json: '' @ refusal)" w3]
    show "app_records (fst (addRecord_remote E r (st, w))) = app_records st
        \<and> alerts (fst (addRecord_remote E r (st, w)))
            = alerts st @ [SaveFailed (Error (''Gagal menyimpan file data.json: '' @ statusText)),
                           LoadFailed (Error (''Gagal mengambil file data.json: '' @ refusal))]"
      by blast
  qed
  have 7: "?schedule = (Inr sd, w2)
        \<and> http_get E w2 settings ''data.json'' = (GetOk decoded sha, w3) \<and> decoded \<noteq> []
        \<and> parse_json E decoded = None
      \<longrightarrow> app_records (fst (addRecord_remote E r (st, w))) = app_records st
        \<and> alerts (fst (addRecord_remote E r (st, w)))
            = alerts st @ [SaveFailed (Error (''Gagal menyimpan file data.json: '' @ statusText)),
                           LoadFailed SyntaxError]"
  proof
    assume h: "?schedule = (Inr sd, w2)
        \<and> http_get E w2 settings ''data.json'' = (GetOk decoded sha, w3) \<and> decoded \<noteq> []
        \<and> parse_json E decoded = None"
    then have g: "getOrCreate E settings ''data.json'' (JArray []) w2 = (Inl SyntaxError, w3)"
      by (simp add: getOrCreate_def getFile_def)
    from h have "?schedule = (Inr sd, w2)" by simp
    with g 5 [of SyntaxError w3]
    show "app_records (fst (addRecord_remote E r (st, w))) = app_records st
        \<and> alerts (fst (addRecord_remote E r (st, w)))
            = alerts st @ [SaveFailed (Error (''Gagal menyimpan file data.json: '' @ statusText)),
                           LoadFailed SyntaxError]"
      by blast
  qed
  from 1 2 3 [of rd w3] 4 5 [of e w3] 6 7 show ?thesis by blast
qed

theorem C8_stale_save_witness:
  "githubSettings scenario_app = Some scenario_settings
   \<and> token scenario_settings \<noteq> []
   \<and> spread (app_records scenario_app) = Some [json_of_record scenario_record]
   \<and> fst (addRecord_remote store_env scenario_later (scenario_app, scenario_store 8))
       = scenario_app
           \<lparr>alerts := [SaveFailed (Error ''Gagal menyimpan file data.json: Conflict'')],
            app_schedule := json_of_schedule DEFAULT_JADWAL_RONDA, scheduleSha := None,
            app_records := JArray [json_of_record scenario_record, json_of_record scenario_later],
            recordsSha := Some ''v2'', isInitialized := True\<rparr>
   \<and> app_records (fst (addRecord_remote store_env scenario_later (scenario_app, scenario_store 3)))
       = JArray [json_of_record scenario_record]
   \<and> app_schedule (fst (addRecord_remote store_env scenario_later (scenario_app, scenario_store 3)))
       = json_of_schedule DEFAULT_JADWAL_RONDA
   \<and> alerts (fst (addRecord_remote store_env scenario_later (scenario_app, scenario_store 3)))
       = [SaveFailed (Error ''Gagal menyimpan file data.json: Conflict''),
          LoadFailed (Error ''Gagal mengambil file data.json: Service Unavailable'')]"
proof -
  define body where
    "body = JSON_stringify (\<lambda>q. []) (JArray ([json_of_record scenario_record] @ [json_of_record scenario_later]))"
  define body1 where "body1 = JSON_stringify (\<lambda>q. []) (json_of_schedule DEFAULT_JADWAL_RONDA)"
  define created where "created = [''data.json'' \<mapsto> (scenario_remote_text, ''v2''),
      ''schedule.json'' \<mapsto> (body1, ''blob '' @ body1)]"
  define w1 where "w1 = (scenario_store 8)\<lparr>answers_left := 7\<rparr>"
  define w2 where "w2 = (scenario_store 8)\<lparr>answers_left := 6\<rparr>"
  define w3 where "w3 = \<lparr>files = created, writable = True, answers_left = 5\<rparr>"
  define w4 where "w4 = w3\<lparr>answers_left := 4\<rparr>"
  define v1 where "v1 = (scenario_store 3)\<lparr>answers_left := 2\<rparr>"
  define v2 where "v2 = (scenario_store 3)\<lparr>answers_left := 1\<rparr>"
  define v3 where "v3 = \<lparr>files = created, writable = True, answers_left = 0\<rparr>"
  have s: "githubSettings scenario_app = Some scenario_settings"
    by (simp add: scenario_app_def)
  have t: "token scenario_settings \<noteq> []" by (simp add: scenario_settings_def)
  have x: "spread (app_records scenario_app) = Some [json_of_record scenario_record]"
    by (simp add: spread_def scenario_app_def)
  have e: "encode_json store_env (JArray ([json_of_record scenario_record] @ [json_of_record scenario_later]))
      = Some body"
    by (simp add: store_env_def body_def)
  have p: "http_put store_env (scenario_store 8) scenario_settings ''data.json'' body
        (if recordsSha scenario_app = Some [] then None else recordsSha scenario_app)
      = (PutRefused ''Conflict'', w1)"
    by (simp add: store_env_def store_put_def scenario_store_def scenario_app_def w1_def)
  have g1: "http_get store_env w1 scenario_settings ''schedule.json'' = (GetNotFound, w2)"
    by (simp add: store_env_def store_get_def scenario_store_def w1_def w2_def)
  have e1: "encode_json store_env (json_of_schedule DEFAULT_JADWAL_RONDA) = Some body1"
    by (simp add: store_env_def body1_def)
  have p1: "http_put store_env w2 scenario_settings ''schedule.json'' body1 None
      = (PutOk (Some (''blob '' @ body1)), w3)"
    by (simp add: store_env_def store_put_def scenario_store_def w2_def w3_def created_def)
  have c1: "getOrCreate store_env scenario_settings ''schedule.json'' (json_of_schedule DEFAULT_JADWAL_RONDA) w1
      = (Inr (json_of_schedule DEFAULT_JADWAL_RONDA, None), w3)"
    using g1 e1 p1 by (rule getOrCreate_absent)
  have g2: "http_get store_env w3 scenario_settings ''data.json'' = (GetOk scenario_remote_text (Some ''v2''), w4)"
    by (simp add: store_env_def store_get_def w3_def w4_def created_def)
  have ne: "scenario_remote_text \<noteq> []"
    by (simp add: scenario_remote_text_def JSON_stringify_def)
  have pj: "parse_json store_env scenario_remote_text
      = Some (JArray [json_of_record scenario_record, json_of_record scenario_later])"
    by (simp add: store_env_def scenario_remote_parse)
  have q: "http_put store_env (scenario_store 3) scenario_settings ''data.json'' body
        (if recordsSha scenario_app = Some [] then None else recordsSha scenario_app)
      = (PutRefused ''Conflict'', v1)"
    by (simp add: store_env_def store_put_def scenario_store_def scenario_app_def v1_def)
  have h1: "http_get store_env v1 scenario_settings ''schedule.json'' = (GetNotFound, v2)"
    by (simp add: store_env_def store_get_def scenario_store_def v1_def v2_def)
  have q1: "http_put store_env v2 scenario_settings ''schedule.json'' body1 None
      = (PutOk (Some (''blob '' @ body1)), v3)"
    by (simp add: store_env_def store_put_def scenario_store_def v2_def v3_def created_def)
  have d1: "getOrCreate store_env scenario_settings ''schedule.json'' (json_of_schedule DEFAULT_JADWAL_RONDA) v1
      = (Inr (json_of_schedule DEFAULT_JADWAL_RONDA, None), v3)"
    using h1 e1 q1 by (rule getOrCreate_absent)
  have h2: "http_get store_env v3 scenario_settings ''data.json'' = (GetRefused ''Service Unavailable'', v3)"
    by (simp add: store_env_def store_get_def v3_def)
  have first: "fst (addRecord_remote store_env scenario_later (scenario_app, scenario_store 8))
       = scenario_app
           \<lparr>alerts := [SaveFailed (Error ''Gagal menyimpan file data.json: Conflict'')],
            app_schedule := json_of_schedule DEFAULT_JADWAL_RONDA, scheduleSha := None,
            app_records := JArray [json_of_record scenario_record, json_of_record scenario_later],
            recordsSha := Some ''v2'', isInitialized := True\<rparr>"
    using C8_stale_save [OF s t x e p, where sd = "(json_of_schedule DEFAULT_JADWAL_RONDA, None)"
      and ?w2.0 = w3 and decoded = scenario_remote_text and sha = "Some ''v2''" and ?w3.0 = w4
      and content = "JArray [json_of_record scenario_record, json_of_record scenario_later]"]
      c1 g2 ne pj
    by (simp add: scenario_app_def)
  have second: "app_records (fst (addRecord_remote store_env scenario_later (scenario_app, scenario_store 3)))
       = JArray [json_of_record scenario_record]
     \<and> alerts (fst (addRecord_remote store_env scenario_later (scenario_app, scenario_store 3)))
       = [SaveFailed (Error ''Gagal menyimpan file data.json: Conflict''),
          LoadFailed (Error ''Gagal mengambil file data.json: Service Unavailable'')]"
    using C8_stale_save [OF s t x e q, where sd = "(json_of_schedule DEFAULT_JADWAL_RONDA, None)"
      and ?w2.0 = v3 and refusal = "''Service Unavailable''" and ?w3.0 = v3]
      d1 h2
    by (simp add: scenario_app_def)
  have third: "app_schedule (fst (addRecord_remote store_env scenario_later (scenario_app, scenario_store 3)))
       = json_of_schedule DEFAULT_JADWAL_RONDA"
  proof -
    have "getOrCreate store_env scenario_settings ''data.json'' (JArray []) v3
        = (Inl (Error (''Gagal mengambil file data.json: '' @ ''Service Unavailable'')), v3)"
      using h2 by (simp add: getOrCreate_def getFile_def)
    with C8_stale_save [OF s t x e q, where sd = "(json_of_schedule DEFAULT_JADWAL_RONDA, None)"
      and ?w2.0 = v3 and ?w3.0 = v3
      and e = "Error (''Gagal mengambil file data.json: '' @ ''Service Unavailable'')"] d1
    show ?thesis by (simp add: load_failed_def)
  qed
  from first second third s t x show ?thesis by simp
qed

subsection \<open>C9: removing an officer\<close>





subsection \<open>C10: schedule edits are confined to the targeted weekday\<close>

text \<open>
  C10. For every editor state, weekday index d, officer name n and every other
  weekday index d', the officer list of d' after \<open>addOfficer(d)\<close> (the name is the text
  typed for d) and after \<open>removeOfficer(d, n)\<close> is the one before, also when the
  handler throws.
\<close>

theorem C10_edits_confined:
  assumes "d' \<noteq> d"
  shows "schedule (state_after st (addOfficer d st)) d' = schedule st d'
       \<and> schedule (state_after st (removeOfficer d n st)) d' = schedule st d'"
  using assms
  by (simp add: state_after_def addOfficer_def removeOfficer_def split: option.splits)

theorem C10_edits_confined_witness:
  "(2::nat) \<noteq> 1
   \<and> schedule (state_after scenario_editor (addOfficer 1 scenario_editor)) 1 = Some [''A'', ''B'', ''A'', ''D'']
   \<and> schedule (state_after scenario_editor (addOfficer 1 scenario_editor)) 2 = Some [''C'']
   \<and> schedule (state_after scenario_editor (removeOfficer 1 ''A'' scenario_editor)) 1 = Some [''B'']
   \<and> schedule (state_after scenario_editor (removeOfficer 1 ''A'' scenario_editor)) 2 = Some [''C'']"
proof -
  have "(2::nat) \<noteq> 1" by simp
  from C10_edits_confined [OF this, of scenario_editor "''A''"]
  show ?thesis
    by (simp add: state_after_def addOfficer_def removeOfficer_def scenario_editor_def trim_def
        strip.simps leading_def white_space_def)
qed

end
